theory Spec2Isabelle
  imports Main "HOL-Library.Word" "HOL-Library.AList" "HOL-Library.Multiset"
begin

section \<open>The protocol engine: BeamLink.cpp\<close>

text \<open>
  The engine object of \<^verbatim>\<open>BeamLink.cpp\<close> as a record, every member function as a
  function from the state to the result and the new state. The NimBLE stack is not part
  of the repository: what the engine asks of it is kept in the fields below the engine's
  own (\<open>bleInitName\<close> to \<open>handled\<close>), and what the stack answers to a request that
  can fail is an argument of the function that makes the request (\<open>stack_results\<close>).
  \<^verbatim>\<open>millis()\<close> is an argument as well. The diagnostic \<^verbatim>\<open>Serial\<close> prints of the
  engine, \<^verbatim>\<open>setScanResponse\<close>, \<^verbatim>\<open>setCallbacks\<close> and \<^verbatim>\<open>delay\<close> leave no trace
  in the state.
\<close>

type_synonym u16 = "16 word"
type_synonym u32 = "32 word"
type_synonym i8 = "8 word"
type_synonym handle = nat

text \<open>
  A message handler receives the text and a reply function bound to \<open>notify\<close>; it returns
  nothing. The model keeps of a handler the replies it makes, in order.
\<close>

type_synonym MessageHandler = "string \<Rightarrow> string list"

record BeamLink =
  pServer :: "handle option"
  pChar :: "handle option"
  messageHandler :: "MessageHandler option"
  deviceConnected :: bool
  initialized :: bool
  deviceName :: string
  serviceUuid :: string
  characteristicUuid :: string
  messagesReceived :: u32
  messagesSent :: u32
  errorCount :: u32
  startTime :: u32
  bleInitName :: "string option"
  txPower :: i8
  mtu :: u16
  advServiceUuids :: "string list"
  advIntervalUnits :: u16
  advertising :: bool
  charValue :: string
  notified :: "string list"
  handled :: "string list"

text \<open>
  \<open>bleInitName\<close>: the name given to \<^verbatim>\<open>NimBLEDevice::init\<close>, \<open>None\<close> before it and after
  \<^verbatim>\<open>deinit\<close>. \<open>mtu\<close>: what \<^verbatim>\<open>NimBLEDevice::getMTU()\<close> returns. \<open>advertising\<close>: whether
  the stack is advertising. \<open>charValue\<close>: the characteristic's value; \<open>notified\<close>: the
  frames sent by \<^verbatim>\<open>pChar->notify()\<close>, oldest first. \<open>handled\<close>: the texts the
  registered handler was invoked with, oldest first.
\<close>

record stack_results =
  createServer_res :: "handle option"
  createService_ok :: bool
  createCharacteristic_res :: "handle option"
  serviceStart_ok :: bool
  getAdvertising_ok :: bool
  startAdvertising_ok :: bool

definition BMLK_SERVICE_UUID :: string where
  "BMLK_SERVICE_UUID = ''12345678-1234-1234-1234-1234567890ab''"

definition BMLK_CHARACTERISTIC_UUID :: string where
  "BMLK_CHARACTERISTIC_UUID = ''12345678-1234-1234-1234-1234567890ac''"

text \<open>The constructor and the member initialisers of the class; the stack at power-on.\<close>

definition BeamLink_new :: BeamLink where
  "BeamLink_new =
     \<lparr>pServer = None, pChar = None, messageHandler = None,
      deviceConnected = False, initialized = False,
      deviceName = [], serviceUuid = [], characteristicUuid = [],
      messagesReceived = 0, messagesSent = 0, errorCount = 0, startTime = 0,
      bleInitName = None, txPower = 0, mtu = 23, advServiceUuids = [],
      advIntervalUnits = 0, advertising = False, charValue = [], notified = [],
      handled = []\<rparr>"

text \<open>\<^verbatim>\<open>std::max\<close> and \<^verbatim>\<open>std::min\<close> on \<^verbatim>\<open>int8_t\<close>: the comparison is signed.\<close>

definition max_i8 :: "i8 \<Rightarrow> i8 \<Rightarrow> i8" where
  "max_i8 a b = (if sint a < sint b then b else a)"

definition min_i8 :: "i8 \<Rightarrow> i8 \<Rightarrow> i8" where
  "min_i8 a b = (if sint b < sint a then b else a)"

text \<open>
  \<^verbatim>\<open>NimBLEDevice::startAdvertising()\<close>: the stack's answer is the argument; advertising
  is active once the stack has accepted.
\<close>

definition NimBLEDevice_startAdvertising :: "bool \<Rightarrow> BeamLink \<Rightarrow> bool \<times> BeamLink" where
  "NimBLEDevice_startAdvertising ok s = (ok, if ok then s\<lparr>advertising := True\<rparr> else s)"

subsection \<open>Connection controller: the server callbacks\<close>

text \<open>
  The engine keeps of the connection one boolean, \<^verbatim>\<open>deviceConnected\<close>; whether the
  device advertises is the stack's. The states of the specification: Connected, a peer is
  attached; Advertising, no peer is attached and the stack advertises. An engine with
  no peer whose stack does not advertise is in neither: it is Idle, as before a
  successful \<^verbatim>\<open>begin\<close> and after \<^verbatim>\<open>end\<close>.
\<close>

datatype ConnectionState = Idle | Advertising | Connected

definition isConnected :: "BeamLink \<Rightarrow> bool" where
  "isConnected s = deviceConnected s"

definition connectionState :: "BeamLink \<Rightarrow> ConnectionState" where
  "connectionState s =
     (if deviceConnected s then Connected
      else if advertising s then Advertising else Idle)"

text \<open>
  The callbacks hold the engine that constructed them (\<^verbatim>\<open>this\<close>): their pointer
  \<^verbatim>\<open>beamLink\<close> is never null. \<open>adv_ok\<close> is the stack's answer to the request to
  advertise again; \<^verbatim>\<open>onDisconnect\<close> does not look at it.
\<close>

definition onConnect :: "BeamLink \<Rightarrow> BeamLink" where
  "onConnect s = s\<lparr>deviceConnected := True\<rparr>"

definition onDisconnect :: "bool \<Rightarrow> BeamLink \<Rightarrow> BeamLink" where
  "onDisconnect adv_ok s =
     snd (NimBLEDevice_startAdvertising adv_ok (s\<lparr>deviceConnected := False\<rparr>))"

subsection \<open>begin, setupService, startAdvertising\<close>

definition setupService :: "stack_results \<Rightarrow> BeamLink \<Rightarrow> bool \<times> BeamLink" where
  "setupService stk s =
     (if pServer s = None then (False, s)
      else if \<not> createService_ok stk then (False, s)
      else
        let s1 = s\<lparr>pChar := createCharacteristic_res stk\<rparr> in
        if pChar s1 = None then (False, s1)
        else if \<not> serviceStart_ok stk then (False, s1)
        else (True, s1))"

definition startAdvertising :: "u16 \<Rightarrow> stack_results \<Rightarrow> BeamLink \<Rightarrow> bool \<times> BeamLink" where
  "startAdvertising intervalMs stk s =
     (if \<not> getAdvertising_ok stk then (False, s)
      else
        let intervalUnits = (of_nat ((unat intervalMs * 16) div 10) :: u16);
            intervalUnits' = max 32 (min 16384 intervalUnits);
            s1 = s\<lparr>advServiceUuids := advServiceUuids s @ [serviceUuid s],
                   advIntervalUnits := intervalUnits'\<rparr>
        in case NimBLEDevice_startAdvertising (startAdvertising_ok stk) s1 of
             (ok, s2) \<Rightarrow> if \<not> ok then (False, s2) else (True, s2))"

text \<open>The two parameter checks of \<^verbatim>\<open>begin\<close>: out of range is clamped, not refused.\<close>

definition clampPower :: "i8 \<Rightarrow> i8" where
  "clampPower advPowerDbm =
     (if sint advPowerDbm < - 12 \<or> sint advPowerDbm > 9
      then max_i8 (- 12) (min_i8 9 advPowerDbm) else advPowerDbm)"

definition clampInterval :: "u16 \<Rightarrow> u16" where
  "clampInterval advIntervalMs =
     (if advIntervalMs < 20 \<or> advIntervalMs > 10240
      then max 20 (min 10240 advIntervalMs) else advIntervalMs)"

definition BeamLink_begin ::
  "string option \<Rightarrow> i8 \<Rightarrow> u16 \<Rightarrow> string option \<Rightarrow> string option \<Rightarrow>
   stack_results \<Rightarrow> u32 \<Rightarrow> BeamLink \<Rightarrow> bool \<times> BeamLink" where
  "BeamLink_begin deviceName' advPowerDbm advIntervalMs serviceUuid' characteristicUuid' stk now s =
     (if initialized s then (False, s)
      else case deviceName' of
        None \<Rightarrow> (False, s)
      | Some name \<Rightarrow>
          if length name = 0 then (False, s)
          else
            let pw = clampPower advPowerDbm;
                iv = clampInterval advIntervalMs;
                s1 = s\<lparr>deviceName := name,
                       serviceUuid :=
                         (case serviceUuid' of Some u \<Rightarrow> u | None \<Rightarrow> BMLK_SERVICE_UUID),
                       characteristicUuid :=
                         (case characteristicUuid' of Some u \<Rightarrow> u
                          | None \<Rightarrow> BMLK_CHARACTERISTIC_UUID)\<rparr>;
                s2 = s1\<lparr>bleInitName := Some name, txPower := pw\<rparr>;
                s3 = s2\<lparr>pServer := createServer_res stk\<rparr>
            in if pServer s3 = None then (False, s3)
               else
                 let s4 = s3\<lparr>mtu := 512\<rparr> in
                 case setupService stk s4 of
                   (ok5, s5) \<Rightarrow>
                     if \<not> ok5 then (False, s5)
                     else case startAdvertising iv stk s5 of
                       (ok6, s6) \<Rightarrow>
                         if \<not> ok6 then (False, s6)
                         else (True, s6\<lparr>initialized := True, startTime := now,
                                         messagesReceived := 0, messagesSent := 0,
                                         errorCount := 0\<rparr>))"

subsection \<open>onMessage, notify, the getters, resetStats, end\<close>

definition onMessage :: "MessageHandler option \<Rightarrow> BeamLink \<Rightarrow> BeamLink" where
  "onMessage handler s = s\<lparr>messageHandler := handler\<rparr>"

text \<open>
  \<open>maxSize\<close> is a \<^verbatim>\<open>uint16_t\<close>: the subtraction wraps below an MTU of 3.
  \<^verbatim>\<open>msg.substr(0, maxSize)\<close> is \<open>take\<close>.
\<close>

definition notify :: "string \<Rightarrow> BeamLink \<Rightarrow> bool \<times> BeamLink" where
  "notify msg s =
     (if \<not> initialized s \<or> pChar s = None \<or> \<not> deviceConnected s
      then (False, s\<lparr>errorCount := errorCount s + 1\<rparr>)
      else if length msg = 0 then (False, s\<lparr>errorCount := errorCount s + 1\<rparr>)
      else
        let maxSize = (mtu s - 3 :: u16);
            s1 = (if length msg > unat maxSize
                  then s\<lparr>errorCount := errorCount s + 1,
                         charValue := take (unat maxSize) msg\<rparr>
                  else s\<lparr>charValue := msg\<rparr>);
            s2 = s1\<lparr>notified := notified s1 @ [charValue s1]\<rparr>
        in (True, s2\<lparr>messagesSent := messagesSent s2 + 1\<rparr>))"

definition getDeviceName :: "BeamLink \<Rightarrow> string" where
  "getDeviceName s = deviceName s"

definition getMTU :: "BeamLink \<Rightarrow> u16" where
  "getMTU s = (if \<not> initialized s then 23 else mtu s)"

definition getMessagesReceived :: "BeamLink \<Rightarrow> u32" where
  "getMessagesReceived s = messagesReceived s"

definition getMessagesSent :: "BeamLink \<Rightarrow> u32" where
  "getMessagesSent s = messagesSent s"

definition getErrors :: "BeamLink \<Rightarrow> u32" where
  "getErrors s = errorCount s"

definition getUptime :: "u32 \<Rightarrow> BeamLink \<Rightarrow> u32" where
  "getUptime now s = (if \<not> initialized s then 0 else now - startTime s)"

definition resetStats :: "u32 \<Rightarrow> BeamLink \<Rightarrow> BeamLink" where
  "resetStats now s =
     s\<lparr>messagesReceived := 0, messagesSent := 0, errorCount := 0, startTime := now\<rparr>"

definition loop :: "BeamLink \<Rightarrow> BeamLink" where
  "loop s = s"

definition BeamLink_end :: "BeamLink \<Rightarrow> BeamLink" where
  "BeamLink_end s =
     (if initialized s then
        let s1 = s\<lparr>deviceConnected := False, initialized := False\<rparr>;
            s2 = (if pServer s1 \<noteq> None then s1\<lparr>advertising := False\<rparr> else s1);
            s3 = s2\<lparr>pChar := None, pServer := None\<rparr>
        in s3\<lparr>bleInitName := None, advertising := False\<rparr>
      else s)"

subsection \<open>Inbound dispatch: the characteristic's write callback\<close>

text \<open>
  \<open>rxValue\<close> is the value the peer wrote. The reply function handed to the handler calls
  \<open>notify\<close> and drops its result.
\<close>

definition onWrite :: "string \<Rightarrow> BeamLink \<Rightarrow> BeamLink" where
  "onWrite rxValue s =
     (if length rxValue > 0 then
        let s1 = s\<lparr>messagesReceived := messagesReceived s + 1\<rparr> in
        case messageHandler s1 of
          None \<Rightarrow> s1
        | Some h \<Rightarrow>
            fold (\<lambda>msg st. snd (notify msg st)) (h rxValue)
              (s1\<lparr>handled := handled s1 @ [rxValue]\<rparr>)
      else s)"

subsection \<open>Histories of an engine\<close>

text \<open>
  What can happen to an engine after its construction: the calls of the public interface,
  the three events of the stack, and the stack changing the MTU it reports. In an event
  the stack's own part comes first, then the callback: when a peer connects the stack
  stops advertising (it does not start again by itself, which is why \<^verbatim>\<open>onDisconnect\<close>
  asks for it), and a write stores the value in the characteristic, where
  \<^verbatim>\<open>onWrite\<close> reads it.
\<close>

datatype call =
    Begin "string option" i8 u16 "string option" "string option" stack_results u32
  | OnMessage "MessageHandler option"
  | Notify string
  | ResetStats u32
  | Loop
  | End
  | EvConnect
  | EvDisconnect bool
  | EvWrite string
  | EvMtu u16

fun step :: "call \<Rightarrow> BeamLink \<Rightarrow> BeamLink" where
  "step (Begin n p i su cu stk now) s = snd (BeamLink_begin n p i su cu stk now s)"
| "step (OnMessage h) s = onMessage h s"
| "step (Notify msg) s = snd (notify msg s)"
| "step (ResetStats now) s = resetStats now s"
| "step Loop s = loop s"
| "step End s = BeamLink_end s"
| "step EvConnect s = onConnect (s\<lparr>advertising := False\<rparr>)"
| "step (EvDisconnect adv_ok) s = onDisconnect adv_ok s"
| "step (EvWrite rx) s = onWrite rx (s\<lparr>charValue := rx\<rparr>)"
| "step (EvMtu m) s = s\<lparr>mtu := m\<rparr>"

definition run :: "call list \<Rightarrow> BeamLink \<Rightarrow> BeamLink" where
  "run cs s = fold step cs s"

text \<open>An initialized engine holds its characteristic.\<close>

definition engine_inv :: "BeamLink \<Rightarrow> bool" where
  "engine_inv s = (initialized s \<longrightarrow> pChar s \<noteq> None)"

subsection \<open>Example engines\<close>

definition stack_ok :: stack_results where
  "stack_ok =
     \<lparr>createServer_res = Some 1, createService_ok = True,
      createCharacteristic_res = Some 2, serviceStart_ok = True,
      getAdvertising_ok = True, startAdvertising_ok = True\<rparr>"


definition stack_no_server :: stack_results where
  "stack_no_server = stack_ok\<lparr>createServer_res := None\<rparr>"

definition echo :: MessageHandler where
  "echo msg = [''Echo: '' @ msg]"

text \<open>
  An engine after a successful \<^verbatim>\<open>begin\<close>, with a handler registered, a peer connected
  (the stack has stopped advertising) and the smallest MTU of BLE, 23.
\<close>

definition ex_calls :: "call list" where
  "ex_calls =
     [Begin (Some ''Dev'') 9 100 None None stack_ok 5, OnMessage (Some echo), EvConnect,
      EvMtu 23]"

definition ex_connected :: BeamLink where
  "ex_connected = run ex_calls BeamLink_new"

section \<open>The reactive state store: NexState\<close>

text \<open>
  \<^verbatim>\<open>StateValue<T>\<close> is a record over the value type; the variant over the four
  instances is a datatype. \<^verbatim>\<open>int\<close> is 32 bits wide. A \<^verbatim>\<open>float\<close> is kept as its 32 bits
  (IEEE 754 single precision): \<^verbatim>\<open>!=\<close> on floats is not inequality of the bits, and is
  written out below. \<^verbatim>\<open>std::to_string\<close> on a float is a function of the C++ library,
  an argument of the functions that render (\<open>f2s\<close>); \<open>std_to_string_float\<close> below is
  what the library computes.
\<close>

type_synonym i32 = "32 word"
type_synonym f32 = "32 word"

record 'a StateValue =
  currentValue :: 'a
  previousValue :: 'a
  changed :: bool

definition StateValue_new :: "'a \<Rightarrow> 'a StateValue" where
  "StateValue_new initialValue =
     \<lparr>currentValue = initialValue, previousValue = initialValue, changed = False\<rparr>"

text \<open>\<open>ne\<close> is the \<^verbatim>\<open>!=\<close> of the value type.\<close>

definition setValue :: "('a \<Rightarrow> 'a \<Rightarrow> bool) \<Rightarrow> 'a \<Rightarrow> 'a StateValue \<Rightarrow> 'a StateValue" where
  "setValue ne newValue sv =
     (if ne newValue (currentValue sv)
      then sv\<lparr>previousValue := currentValue sv, currentValue := newValue, changed := True\<rparr>
      else sv)"

definition StateValue_hasChanged :: "'a StateValue \<Rightarrow> bool" where
  "StateValue_hasChanged sv = changed sv"

definition StateValue_markAsRead :: "'a StateValue \<Rightarrow> 'a StateValue" where
  "StateValue_markAsRead sv = sv\<lparr>changed := False\<rparr>"

definition StateValue_reset :: "'a StateValue \<Rightarrow> 'a StateValue" where
  "StateValue_reset sv = sv\<lparr>previousValue := currentValue sv, changed := False\<rparr>"

definition float_isnan :: "f32 \<Rightarrow> bool" where
  "float_isnan w = (and w 0x7FFFFFFF > 0x7F800000)"

definition float_iszero :: "f32 \<Rightarrow> bool" where
  "float_iszero w = (and w 0x7FFFFFFF = 0)"

definition float_ne :: "f32 \<Rightarrow> f32 \<Rightarrow> bool" where
  "float_ne a b =
     (float_isnan a \<or> float_isnan b \<or> (a \<noteq> b \<and> \<not> (float_iszero a \<and> float_iszero b)))"

definition neq :: "'a \<Rightarrow> 'a \<Rightarrow> bool" where
  "neq a b = (a \<noteq> b)"

text \<open>\<^verbatim>\<open>std::to_string(int)\<close>: the decimal digits, a minus sign before a negative number.\<close>

fun nat_to_string :: "nat \<Rightarrow> string" where
  "nat_to_string n =
     (if n < 10 then [''0123456789'' ! n]
      else nat_to_string (n div 10) @ [''0123456789'' ! (n mod 10)])"

declare nat_to_string.simps [simp del]

definition int_to_string :: "i32 \<Rightarrow> string" where
  "int_to_string v =
     (if sint v < 0 then CHR ''-'' # nat_to_string (nat (- sint v))
      else nat_to_string (nat (sint v)))"

text \<open>
  \<^verbatim>\<open>std::to_string(float)\<close> prints the value as \<^verbatim>\<open>printf\<close> does with \<^verbatim>\<open>%f\<close>: six
  decimals, the exact value rounded to the nearest millionth (a tie to the even one), a
  minus sign when the sign bit is set; \<^verbatim>\<open>inf\<close> for an infinity and \<^verbatim>\<open>nan\<close> for a NaN.
  A float with exponent field \<open>e\<close> and fraction field \<open>m\<close> has the magnitude
  \<open>(2^23 + m) * 2^(e - 150)\<close>, or \<open>m * 2^(- 149)\<close> when \<open>e = 0\<close>; \<open>e = 255\<close> is an
  infinity or a NaN. \<open>float_micro\<close> is the magnitude in millionths, rounded.
\<close>

definition float_sign :: "f32 \<Rightarrow> bool" where
  "float_sign w = bit w 31"

definition float_exponent :: "f32 \<Rightarrow> nat" where
  "float_exponent w = unat (and (drop_bit 23 w) 0xFF)"

definition float_mantissa :: "f32 \<Rightarrow> nat" where
  "float_mantissa w = unat (and w 0x7FFFFF)"

definition float_isfinite :: "f32 \<Rightarrow> bool" where
  "float_isfinite w = (float_exponent w \<noteq> 255)"

definition round_half_even :: "nat \<Rightarrow> nat \<Rightarrow> nat" where
  "round_half_even num den =
     (if 2 * (num mod den) > den \<or> (2 * (num mod den) = den \<and> odd (num div den))
      then num div den + 1 else num div den)"

definition float_micro :: "f32 \<Rightarrow> nat" where
  "float_micro w =
     (let e = (if float_exponent w = 0 then 1 else float_exponent w);
          sig = (if float_exponent w = 0 then float_mantissa w
                 else 2 ^ 23 + float_mantissa w)
      in round_half_even (sig * 10 ^ 6 * 2 ^ (e - 150)) (2 ^ (150 - e)))"

definition pad_zeros :: "nat \<Rightarrow> string \<Rightarrow> string" where
  "pad_zeros k s = replicate (k - length s) (CHR ''0'') @ s"

definition std_to_string_float :: "f32 \<Rightarrow> string" where
  "std_to_string_float w =
     (if float_sign w then ''-'' else [])
     @ (if float_isfinite w
        then nat_to_string (float_micro w div 10 ^ 6) @ ''.''
               @ pad_zeros 6 (nat_to_string (float_micro w mod 10 ^ 6))
        else if float_mantissa w = 0 then ''inf'' else ''nan'')"

definition dquote :: string where
  "dquote = [CHR 0x22]"

text \<open>\<^verbatim>\<open>toString\<close>, one definition for each branch of its \<^verbatim>\<open>if constexpr\<close>.\<close>

definition toString_bool :: "bool StateValue \<Rightarrow> string" where
  "toString_bool sv = (if currentValue sv then ''true'' else ''false'')"

definition toString_int :: "i32 StateValue \<Rightarrow> string" where
  "toString_int sv = int_to_string (currentValue sv)"

definition toString_float :: "(f32 \<Rightarrow> string) \<Rightarrow> f32 StateValue \<Rightarrow> string" where
  "toString_float f2s sv = f2s (currentValue sv)"

definition toString_string :: "string StateValue \<Rightarrow> string" where
  "toString_string sv = dquote @ currentValue sv @ dquote"

datatype val = VBool bool | VInt i32 | VFloat f32 | VText string

datatype kind = KBool | KInt | KFloat | KText

datatype StateValueVariant =
    SBool "bool StateValue"
  | SInt "i32 StateValue"
  | SFloat "f32 StateValue"
  | SText "string StateValue"

fun val_kind :: "val \<Rightarrow> kind" where
  "val_kind (VBool b) = KBool"
| "val_kind (VInt i) = KInt"
| "val_kind (VFloat x) = KFloat"
| "val_kind (VText t) = KText"

fun variant_kind :: "StateValueVariant \<Rightarrow> kind" where
  "variant_kind (SBool sv) = KBool"
| "variant_kind (SInt sv) = KInt"
| "variant_kind (SFloat sv) = KFloat"
| "variant_kind (SText sv) = KText"

text \<open>The \<^verbatim>\<open>!=\<close> of two values of one kind.\<close>

fun val_ne :: "val \<Rightarrow> val \<Rightarrow> bool" where
  "val_ne (VFloat a) (VFloat b) = float_ne a b"
| "val_ne a b = (a \<noteq> b)"

text \<open>The visitors of \<^verbatim>\<open>std::visit\<close>.\<close>

fun variant_hasChanged :: "StateValueVariant \<Rightarrow> bool" where
  "variant_hasChanged (SBool sv) = StateValue_hasChanged sv"
| "variant_hasChanged (SInt sv) = StateValue_hasChanged sv"
| "variant_hasChanged (SFloat sv) = StateValue_hasChanged sv"
| "variant_hasChanged (SText sv) = StateValue_hasChanged sv"

fun variant_markAsRead :: "StateValueVariant \<Rightarrow> StateValueVariant" where
  "variant_markAsRead (SBool sv) = SBool (StateValue_markAsRead sv)"
| "variant_markAsRead (SInt sv) = SInt (StateValue_markAsRead sv)"
| "variant_markAsRead (SFloat sv) = SFloat (StateValue_markAsRead sv)"
| "variant_markAsRead (SText sv) = SText (StateValue_markAsRead sv)"

fun variant_toString :: "(f32 \<Rightarrow> string) \<Rightarrow> StateValueVariant \<Rightarrow> string" where
  "variant_toString f2s (SBool sv) = toString_bool sv"
| "variant_toString f2s (SInt sv) = toString_int sv"
| "variant_toString f2s (SFloat sv) = toString_float f2s sv"
| "variant_toString f2s (SText sv) = toString_string sv"

fun variant_value :: "StateValueVariant \<Rightarrow> val" where
  "variant_value (SBool sv) = VBool (currentValue sv)"
| "variant_value (SInt sv) = VInt (currentValue sv)"
| "variant_value (SFloat sv) = VFloat (currentValue sv)"
| "variant_value (SText sv) = VText (currentValue sv)"

fun variant_previous :: "StateValueVariant \<Rightarrow> val" where
  "variant_previous (SBool sv) = VBool (previousValue sv)"
| "variant_previous (SInt sv) = VInt (previousValue sv)"
| "variant_previous (SFloat sv) = VFloat (previousValue sv)"
| "variant_previous (SText sv) = VText (previousValue sv)"

text \<open>\<^verbatim>\<open>StateValue<T>(value)\<close>, \<open>T\<close> the kind of the value.\<close>

fun fresh :: "val \<Rightarrow> StateValueVariant" where
  "fresh (VBool b) = SBool (StateValue_new b)"
| "fresh (VInt i) = SInt (StateValue_new i)"
| "fresh (VFloat x) = SFloat (StateValue_new x)"
| "fresh (VText t) = SText (StateValue_new t)"

text \<open>
  What \<^verbatim>\<open>set\<close> does to the entry it found: \<^verbatim>\<open>setValue\<close> where \<^verbatim>\<open>std::get_if\<close> finds
  the kind of the value, a new entry in its place otherwise.
\<close>

fun set_entry :: "val \<Rightarrow> StateValueVariant \<Rightarrow> StateValueVariant" where
  "set_entry (VBool b) (SBool sv) = SBool (setValue neq b sv)"
| "set_entry (VInt i) (SInt sv) = SInt (setValue neq i sv)"
| "set_entry (VFloat x) (SFloat sv) = SFloat (setValue float_ne x sv)"
| "set_entry (VText t) (SText sv) = SText (setValue neq t sv)"
| "set_entry v e = fresh v"

record DeviceInfo =
  infoDeviceName :: string
  deviceId :: string
  deviceType :: string
  firmwareVersion :: string
  ledPin :: i32
  ledActiveHigh :: bool

definition DeviceInfo_default :: DeviceInfo where
  "DeviceInfo_default =
     \<lparr>infoDeviceName = [], deviceId = [], deviceType = [], firmwareVersion = [],
      ledPin = 2, ledActiveHigh = True\<rparr>"

record NexStateConfig =
  enableSerialOutput :: bool
  enableJsonFormat :: bool
  enableChangeDetection :: bool
  outputIntervalMs :: u32
  outputOnChange :: bool
  outputOnInterval :: bool
  deviceInfo :: DeviceInfo

definition NexStateConfig_default :: NexStateConfig where
  "NexStateConfig_default =
     \<lparr>enableSerialOutput = True, enableJsonFormat = True, enableChangeDetection = True,
      outputIntervalMs = 1000, outputOnChange = True, outputOnInterval = False,
      deviceInfo = DeviceInfo_default\<rparr>"

text \<open>
  The store. \<open>stateValues\<close> is the \<^verbatim>\<open>unordered_map\<close>, as the list of its entries in the
  order its iteration visits them; the keys of the list are distinct. C++ leaves that
  order open. The library links a new key whose bucket is empty at the head of its list,
  and the model puts every new key first; a table with two keys in one bucket, or one
  that has grown, is visited in another order, and no property below rests on the order. \<open>serial\<close> holds the lines the store printed
  with \<^verbatim>\<open>Serial.println\<close>, oldest first; \<open>callbackCalls\<close> the arguments of every
  invocation of the subscriber, oldest first. The source assigns \<^verbatim>\<open>changeCallback\<close> in
  \<^verbatim>\<open>subscribe\<close> and calls it nowhere, so that no function below extends
  \<open>callbackCalls\<close>.
\<close>

type_synonym ChangeCallback = "string \<Rightarrow> string \<Rightarrow> unit"

record NexState =
  config :: NexStateConfig
  stateValues :: "(string \<times> StateValueVariant) list"
  changeCallback :: "ChangeCallback option"
  lastOutputTime :: u32
  serial :: "string list"
  callbackCalls :: "(string \<times> string) list"

definition NexState_new :: "NexStateConfig \<Rightarrow> u32 \<Rightarrow> NexState" where
  "NexState_new cfg now =
     \<lparr>config = cfg, stateValues = [], changeCallback = None, lastOutputTime = now,
      serial = [], callbackCalls = []\<rparr>"

definition NexState_get :: "string \<Rightarrow> val \<Rightarrow> NexState \<Rightarrow> val" where
  "NexState_get key defaultValue s =
     (case map_of (stateValues s) key of
        Some e \<Rightarrow> if variant_kind e = val_kind defaultValue then variant_value e
                  else defaultValue
      | None \<Rightarrow> defaultValue)"

definition hasChanged :: "kind \<Rightarrow> string \<Rightarrow> NexState \<Rightarrow> bool" where
  "hasChanged T key s =
     (case map_of (stateValues s) key of
        Some e \<Rightarrow> if variant_kind e = T then variant_hasChanged e else False
      | None \<Rightarrow> False)"

definition markAsRead :: "kind \<Rightarrow> string \<Rightarrow> NexState \<Rightarrow> NexState" where
  "markAsRead T key s =
     (case map_of (stateValues s) key of
        Some e \<Rightarrow>
          if variant_kind e = T
          then s\<lparr>stateValues := AList.update key (variant_markAsRead e) (stateValues s)\<rparr>
          else s
      | None \<Rightarrow> s)"

definition getChangedKeys :: "NexState \<Rightarrow> string list" where
  "getChangedKeys s = map fst (filter (\<lambda>pair. variant_hasChanged (snd pair)) (stateValues s))"

definition hasAnyChanged :: "NexState \<Rightarrow> bool" where
  "hasAnyChanged s = list_ex (\<lambda>pair. variant_hasChanged (snd pair)) (stateValues s)"

definition markAllAsRead :: "NexState \<Rightarrow> NexState" where
  "markAllAsRead s =
     s\<lparr>stateValues := map (\<lambda>pair. (fst pair, variant_markAsRead (snd pair))) (stateValues s)\<rparr>"

text \<open>The loops of the two renderers, with their flag \<open>first\<close> and the string built so far.\<close>

fun json_loop ::
  "(f32 \<Rightarrow> string) \<Rightarrow> bool \<Rightarrow> (string \<times> StateValueVariant) list \<Rightarrow> string \<Rightarrow> string" where
  "json_loop f2s first [] json = json"
| "json_loop f2s first (pair # rest) json =
     json_loop f2s False rest
       ((if \<not> first then json @ '','' else json)
        @ dquote @ fst pair @ dquote @ '':'' @ variant_toString f2s (snd pair))"

definition getStateAsJson :: "(f32 \<Rightarrow> string) \<Rightarrow> NexState \<Rightarrow> string" where
  "getStateAsJson f2s s =
     (let info = deviceInfo (config s);
          json = ''{'';
          json = json @ dquote @ ''device'' @ dquote @ '':'' @ dquote @ infoDeviceName info
                   @ dquote @ '','';
          json = json @ dquote @ ''id'' @ dquote @ '':'' @ dquote @ deviceId info
                   @ dquote @ '','';
          json = json @ dquote @ ''type'' @ dquote @ '':'' @ dquote @ deviceType info
                   @ dquote @ '','';
          json = json @ dquote @ ''fw'' @ dquote @ '':'' @ dquote @ firmwareVersion info
                   @ dquote @ '','';
          json = json @ dquote @ ''state'' @ dquote @ '':{'';
          json = json_loop f2s True (stateValues s) json
      in json @ ''}}'')"

text \<open>
  The text renderer takes the quotes off a value that starts and ends with one.
  \<^verbatim>\<open>val.substr(1, val.length() - 2)\<close> is \<open>take\<close> after \<open>drop\<close>; \<^verbatim>\<open>front()\<close> and
  \<^verbatim>\<open>back()\<close> of an empty string are not defined in C++, and no \<^verbatim>\<open>toString\<close> is empty.
\<close>

definition unquote :: "string \<Rightarrow> string" where
  "unquote v =
     (if v \<noteq> [] \<and> hd v = CHR 0x22 \<and> last v = CHR 0x22
      then take (length v - 2) (drop 1 v) else v)"

fun text_loop ::
  "(f32 \<Rightarrow> string) \<Rightarrow> bool \<Rightarrow> (string \<times> StateValueVariant) list \<Rightarrow> string \<Rightarrow> string" where
  "text_loop f2s first [] txt = txt"
| "text_loop f2s first (pair # rest) txt =
     text_loop f2s False rest
       ((if \<not> first then txt @ '', '' else txt)
        @ fst pair @ ''='' @ unquote (variant_toString f2s (snd pair)))"

definition getStateAsText :: "(f32 \<Rightarrow> string) \<Rightarrow> NexState \<Rightarrow> string" where
  "getStateAsText f2s s =
     (let info = deviceInfo (config s);
          txt = ''Device: '' @ infoDeviceName info;
          txt = txt @ '' (ID: '' @ deviceId info;
          txt = txt @ '', Type: '' @ deviceType info;
          txt = txt @ '', FW: '' @ firmwareVersion info @ '')'';
          txt = txt @ '' | State: ''
      in text_loop f2s True (stateValues s) txt)"

definition outputJsonState :: "(f32 \<Rightarrow> string) \<Rightarrow> NexState \<Rightarrow> NexState" where
  "outputJsonState f2s s = s\<lparr>serial := serial s @ [getStateAsJson f2s s]\<rparr>"

definition outputTextState :: "(f32 \<Rightarrow> string) \<Rightarrow> NexState \<Rightarrow> NexState" where
  "outputTextState f2s s = s\<lparr>serial := serial s @ [getStateAsText f2s s]\<rparr>"

text \<open>\<open>now\<close> is what \<^verbatim>\<open>millis()\<close> returns at the end of \<^verbatim>\<open>outputState\<close>.\<close>

definition outputState :: "(f32 \<Rightarrow> string) \<Rightarrow> u32 \<Rightarrow> NexState \<Rightarrow> NexState" where
  "outputState f2s now s =
     (if \<not> enableSerialOutput (config s) then s
      else
        let s1 = (if enableJsonFormat (config s) then outputJsonState f2s s
                  else outputTextState f2s s);
            s2 = markAllAsRead s1
        in s2\<lparr>lastOutputTime := now\<rparr>)"

definition checkAndOutput :: "(f32 \<Rightarrow> string) \<Rightarrow> u32 \<Rightarrow> NexState \<Rightarrow> NexState" where
  "checkAndOutput f2s now s =
     (if enableChangeDetection (config s) \<and> hasAnyChanged s then outputState f2s now s
      else s)"

definition NexState_set :: "(f32 \<Rightarrow> string) \<Rightarrow> string \<Rightarrow> val \<Rightarrow> u32 \<Rightarrow> NexState \<Rightarrow> NexState" where
  "NexState_set f2s key v now s =
     (let s1 = (case map_of (stateValues s) key of
                  Some e \<Rightarrow> s\<lparr>stateValues := AList.update key (set_entry v e) (stateValues s)\<rparr>
                | None \<Rightarrow> s\<lparr>stateValues := (key, fresh v) # stateValues s\<rparr>)
      in if outputOnChange (config s1) then checkAndOutput f2s now s1 else s1)"

text \<open>
  \<^verbatim>\<open>update\<close> reads \<^verbatim>\<open>millis()\<close> first (\<open>now\<close>); \<^verbatim>\<open>outputState\<close> reads it again
  (\<open>now'\<close>), and \<^verbatim>\<open>update\<close> then stores its own reading.
\<close>

definition update :: "(f32 \<Rightarrow> string) \<Rightarrow> u32 \<Rightarrow> u32 \<Rightarrow> NexState \<Rightarrow> NexState" where
  "update f2s now now' s =
     (if outputOnInterval (config s) \<and> now - lastOutputTime s \<ge> outputIntervalMs (config s)
      then (outputState f2s now' s)\<lparr>lastOutputTime := now\<rparr>
      else s)"

definition subscribe :: "ChangeCallback option \<Rightarrow> NexState \<Rightarrow> NexState" where
  "subscribe callback s = s\<lparr>changeCallback := callback\<rparr>"

definition clear :: "NexState \<Rightarrow> NexState" where
  "clear s = s\<lparr>stateValues := []\<rparr>"

definition NexState_size :: "NexState \<Rightarrow> nat" where
  "NexState_size s = length (stateValues s)"

subsection \<open>Histories of a store\<close>

datatype store_call =
    Set string val u32
  | MarkAsRead kind string
  | MarkAllAsRead
  | Update u32 u32
  | OutputState u32
  | Subscribe "ChangeCallback option"
  | Clear

fun store_step :: "(f32 \<Rightarrow> string) \<Rightarrow> store_call \<Rightarrow> NexState \<Rightarrow> NexState" where
  "store_step f2s (Set key v now) s = NexState_set f2s key v now s"
| "store_step f2s (MarkAsRead T key) s = markAsRead T key s"
| "store_step f2s MarkAllAsRead s = markAllAsRead s"
| "store_step f2s (Update now now') s = update f2s now now' s"
| "store_step f2s (OutputState now) s = outputState f2s now s"
| "store_step f2s (Subscribe cb) s = subscribe cb s"
| "store_step f2s Clear s = clear s"

definition store_run :: "(f32 \<Rightarrow> string) \<Rightarrow> store_call list \<Rightarrow> NexState \<Rightarrow> NexState" where
  "store_run f2s cs s = fold (store_step f2s) cs s"

text \<open>The keys set in a history and not removed by a later \<^verbatim>\<open>clear\<close>.\<close>

fun live_keys :: "store_call list \<Rightarrow> string set \<Rightarrow> string set" where
  "live_keys [] ks = ks"
| "live_keys (Set key v now # cs) ks = live_keys cs (insert key ks)"
| "live_keys (Clear # cs) ks = live_keys cs {}"
| "live_keys (c # cs) ks = live_keys cs ks"

subsection \<open>Example stores\<close>

text \<open>The example stores hold no float: any rendering of floats will do for them.\<close>

definition ex_f2s :: "f32 \<Rightarrow> string" where
  "ex_f2s x = ''0.000000''"

definition ex_callback :: ChangeCallback where
  "ex_callback key v = ()"

text \<open>
  A store that does not print on change, with a subscriber, after \<^verbatim>\<open>set("ledOn", true)\<close>
  and \<^verbatim>\<open>set("ledOn", false)\<close>: the key is dirty.
\<close>

definition ex_dirty :: NexState where
  "ex_dirty =
     store_run ex_f2s
       [Subscribe (Some ex_callback), Set ''ledOn'' (VBool True) 1,
        Set ''ledOn'' (VBool False) 2]
       (NexState_new (NexStateConfig_default\<lparr>outputOnChange := False\<rparr>) 0)"

text \<open>The same two calls on a store constructed with serial output disabled.\<close>

definition ex_quiet :: NexState where
  "ex_quiet =
     store_run ex_f2s
       [Set ''ledOn'' (VBool True) 1, Set ''ledOn'' (VBool False) 2]
       (NexState_new (NexStateConfig_default\<lparr>enableSerialOutput := False\<rparr>) 0)"

subsection \<open>The snapshot format, in the words of the specification\<close>

text \<open>
  The structured snapshot as the specification gives it: the four header members, then the
  member \<open>state\<close>, an object with one member for each entry, separated by commas. A
  member is the key between double quotes, a colon, and the text that renders the value.
\<close>

fun join_comma :: "string list \<Rightarrow> string" where
  "join_comma [] = []"
| "join_comma [x] = x"
| "join_comma (x # y # r) = x @ '','' @ join_comma (y # r)"

definition spec_member :: "string \<times> string \<Rightarrow> string" where
  "spec_member kv = dquote @ fst kv @ dquote @ '':'' @ snd kv"

definition spec_json :: "DeviceInfo \<Rightarrow> (string \<times> string) list \<Rightarrow> string" where
  "spec_json info members =
     ''{'' @ dquote @ ''device'' @ dquote @ '':'' @ dquote @ infoDeviceName info @ dquote
     @ '','' @ dquote @ ''id'' @ dquote @ '':'' @ dquote @ deviceId info @ dquote
     @ '','' @ dquote @ ''type'' @ dquote @ '':'' @ dquote @ deviceType info @ dquote
     @ '','' @ dquote @ ''fw'' @ dquote @ '':'' @ dquote @ firmwareVersion info @ dquote
     @ '','' @ dquote @ ''state'' @ dquote @ '':{''
     @ join_comma (map spec_member members)
     @ ''}}''"

text \<open>
  A decimal integer literal: digits, after a minus sign or not; and the number it
  denotes.
\<close>

definition is_digit :: "char \<Rightarrow> bool" where
  "is_digit c = (c \<in> set ''0123456789'')"

definition is_int_literal :: "string \<Rightarrow> bool" where
  "is_int_literal s =
     (case s of
        [] \<Rightarrow> False
      | c # r \<Rightarrow> if c = CHR ''-'' then r \<noteq> [] \<and> list_all is_digit r
                 else list_all is_digit s)"

definition digit_val :: "char \<Rightarrow> nat" where
  "digit_val c = of_char c - 48"

definition digits_val :: "string \<Rightarrow> nat" where
  "digits_val s = foldl (\<lambda>a c. 10 * a + digit_val c) 0 s"

definition int_literal_val :: "string \<Rightarrow> int" where
  "int_literal_val s =
     (case s of
        [] \<Rightarrow> 0
      | c # r \<Rightarrow> if c = CHR ''-'' then - int (digits_val r) else int (digits_val s))"

text \<open>
  A decimal literal with a fraction: digits, a point, digits, after a minus sign or not.
  It denotes, with the sign \<open>has_minus\<close>, the number \<open>fixed_literal_digits\<close> divided by
  ten to the power \<open>fixed_literal_decimals\<close>.
\<close>

definition has_minus :: "string \<Rightarrow> bool" where
  "has_minus s = (case s of [] \<Rightarrow> False | c # r \<Rightarrow> c = CHR ''-'')"

definition unsigned_part :: "string \<Rightarrow> string" where
  "unsigned_part s = (case s of [] \<Rightarrow> [] | c # r \<Rightarrow> if c = CHR ''-'' then r else s)"

definition is_fixed_literal :: "string \<Rightarrow> bool" where
  "is_fixed_literal s =
     (takeWhile is_digit (unsigned_part s) \<noteq> [] \<and>
      (case dropWhile is_digit (unsigned_part s) of
         [] \<Rightarrow> False
       | c # fp \<Rightarrow> c = CHR ''.'' \<and> fp \<noteq> [] \<and> list_all is_digit fp))"

definition fixed_literal_digits :: "string \<Rightarrow> nat" where
  "fixed_literal_digits s =
     digits_val (takeWhile is_digit (unsigned_part s)
                 @ drop 1 (dropWhile is_digit (unsigned_part s)))"

definition fixed_literal_decimals :: "string \<Rightarrow> nat" where
  "fixed_literal_decimals s = length (drop 1 (dropWhile is_digit (unsigned_part s)))"

definition is_number_literal :: "string \<Rightarrow> bool" where
  "is_number_literal s = (is_int_literal s \<or> is_fixed_literal s)"

text \<open>
  The magnitude of a finite float is the fraction \<open>float_abs_num / float_abs_den\<close>.
  \<open>nearest_millionth w m\<close>: no number of millionths is nearer to the magnitude of \<open>w\<close>
  than \<open>m\<close>, that is, \<open>m / 10^6\<close> is at most half a millionth away from it.
\<close>

definition float_abs_num :: "f32 \<Rightarrow> nat" where
  "float_abs_num w =
     (if float_exponent w = 0 then float_mantissa w * 2 ^ (1 - 150)
      else (2 ^ 23 + float_mantissa w) * 2 ^ (float_exponent w - 150))"

definition float_abs_den :: "f32 \<Rightarrow> nat" where
  "float_abs_den w =
     (if float_exponent w = 0 then 2 ^ (150 - 1) else 2 ^ (150 - float_exponent w))"

definition nearest_millionth :: "f32 \<Rightarrow> nat \<Rightarrow> bool" where
  "nearest_millionth w m =
     (2 * \<bar>int m * int (float_abs_den w) - 10 ^ 6 * int (float_abs_num w)\<bar>
        \<le> int (float_abs_den w))"

text \<open>
  \<open>spec_renders e str\<close>: the text \<open>str\<close> renders the current value of the entry \<open>e\<close> by
  its kind. A boolean is true or false; an integer is a decimal literal that denotes it; a
  text stands between double quotes; a finite float is a decimal literal with six
  decimals, with the sign of the float, that denotes the millionth nearest to its
  magnitude. An infinity is \<^verbatim>\<open>inf\<close> and a NaN is \<^verbatim>\<open>nan\<close>, after a minus sign when the sign
  bit is set: these are not numeric literals.
\<close>

fun spec_renders :: "StateValueVariant \<Rightarrow> string \<Rightarrow> bool" where
  "spec_renders (SBool sv) str = (str = (if currentValue sv then ''true'' else ''false''))"
| "spec_renders (SInt sv) str =
     (is_int_literal str \<and> int_literal_val str = sint (currentValue sv))"
| "spec_renders (SFloat sv) str =
     (if float_isfinite (currentValue sv)
      then is_fixed_literal str \<and> has_minus str = float_sign (currentValue sv) \<and>
           fixed_literal_decimals str = 6 \<and>
           nearest_millionth (currentValue sv) (fixed_literal_digits str)
      else str = (if float_sign (currentValue sv) then ''-'' else [])
                 @ (if float_mantissa (currentValue sv) = 0 then ''inf'' else ''nan''))"
| "spec_renders (SText sv) str = (str = dquote @ currentValue sv @ dquote)"

subsection \<open>Auxiliary notions for the dirty flags\<close>

text \<open>
  The on-change pass of \<^verbatim>\<open>set\<close> prints, and clears the flags, only with all three
  switches on.
\<close>

definition on_change_active :: "NexStateConfig \<Rightarrow> bool" where
  "on_change_active cfg =
     (outputOnChange cfg \<and> enableChangeDetection cfg \<and> enableSerialOutput cfg)"

text \<open>A dirty entry holds a current value that differs from its previous value.\<close>

definition entry_ok :: "StateValueVariant \<Rightarrow> bool" where
  "entry_ok e = (variant_hasChanged e \<longrightarrow> val_ne (variant_value e) (variant_previous e))"

definition entries_ok :: "NexState \<Rightarrow> bool" where
  "entries_ok s = list_all (\<lambda>pair. entry_ok (snd pair)) (stateValues s)"

text \<open>The first half of \<^verbatim>\<open>set\<close>: the entry is updated or inserted, nothing is printed.\<close>

definition upsert :: "string \<Rightarrow> val \<Rightarrow> NexState \<Rightarrow> NexState" where
  "upsert key v s =
     (case map_of (stateValues s) key of
        Some e \<Rightarrow> s\<lparr>stateValues := AList.update key (set_entry v e) (stateValues s)\<rparr>
      | None \<Rightarrow> s\<lparr>stateValues := (key, fresh v) # stateValues s\<rparr>)"

subsection \<open>Example stores for the snapshot\<close>

text \<open>
  A store with device information, after a key set and cleared, then a boolean, a negative
  integer, the float 25.5 and a text set, the boolean set again to the same value, and
  every flag cleared: no key is dirty.
\<close>

definition ex_snapshot_calls :: "store_call list" where
  "ex_snapshot_calls =
     [Set ''old'' (VInt 1) 1, Clear, Set ''ledOn'' (VBool True) 2, Set ''count'' (VInt (- 7)) 3,
      Set ''temp'' (VFloat 0x41CC0000) 4, Set ''name'' (VText ''lamp'') 5,
      Set ''ledOn'' (VBool True) 6, MarkAllAsRead]"

definition ex_info :: DeviceInfo where
  "ex_info = DeviceInfo_default\<lparr>infoDeviceName := ''Dev'', deviceId := ''d1'',
     deviceType := ''led'', firmwareVersion := ''1.0''\<rparr>"

definition ex_snapshot :: NexState where
  "ex_snapshot =
     store_run std_to_string_float ex_snapshot_calls
       (NexState_new (NexStateConfig_default\<lparr>deviceInfo := ex_info\<rparr>) 0)"

text \<open>A default store after \<^verbatim>\<open>set("t", NAN)\<close>; \<open>0x7FC00000\<close> is the quiet NaN.\<close>

definition ex_nan :: NexState where
  "ex_nan =
     store_run std_to_string_float [Set ''t'' (VFloat 0x7FC00000) 1]
       (NexState_new NexStateConfig_default 0)"

section \<open>Properties of the protocol engine\<close>

subsection \<open>Facts shared by the theorems on the engine\<close>

lemma ex_connected_eq:
  "ex_connected =
     \<lparr>pServer = Some 1, pChar = Some 2, messageHandler = Some echo,
      deviceConnected = True, initialized = True,
      deviceName = ''Dev'', serviceUuid = BMLK_SERVICE_UUID,
      characteristicUuid = BMLK_CHARACTERISTIC_UUID,
      messagesReceived = 0, messagesSent = 0, errorCount = 0, startTime = 5,
      bleInitName = Some ''Dev'', txPower = 9, mtu = 23,
      advServiceUuids = [BMLK_SERVICE_UUID],
      advIntervalUnits = 160, advertising = False, charValue = [], notified = [],
      handled = []\<rparr>"
  by (simp add: ex_connected_def ex_calls_def run_def BeamLink_begin_def BeamLink_new_def
      stack_ok_def clampPower_def clampInterval_def setupService_def startAdvertising_def
      NimBLEDevice_startAdvertising_def onMessage_def onConnect_def Let_def)

lemma notify_initialized: "initialized (snd (notify m s)) = initialized s"
  by (simp add: notify_def Let_def)

lemma notify_pChar: "pChar (snd (notify m s)) = pChar s"
  by (simp add: notify_def Let_def)

lemma fold_notify_initialized:
  "initialized (fold (\<lambda>msg st. snd (notify msg st)) ms s) = initialized s"
  by (induction ms arbitrary: s) (simp_all add: notify_initialized)

lemma fold_notify_pChar:
  "pChar (fold (\<lambda>msg st. snd (notify msg st)) ms s) = pChar s"
  by (induction ms arbitrary: s) (simp_all add: notify_pChar)

lemma setupService_True:
  "fst (setupService stk s) \<Longrightarrow> pChar (snd (setupService stk s)) \<noteq> None"
  by (simp add: setupService_def Let_def split: if_splits)

lemma setupService_keeps:
  "initialized (snd (setupService stk s)) = initialized s"
  "deviceConnected (snd (setupService stk s)) = deviceConnected s"
  "messageHandler (snd (setupService stk s)) = messageHandler s"
  "messagesReceived (snd (setupService stk s)) = messagesReceived s"
  "messagesSent (snd (setupService stk s)) = messagesSent s"
  "errorCount (snd (setupService stk s)) = errorCount s"
  "startTime (snd (setupService stk s)) = startTime s"
  "deviceName (snd (setupService stk s)) = deviceName s"
  by (simp_all add: setupService_def Let_def)

lemma startAdvertising_keeps:
  "pChar (snd (startAdvertising iv stk s)) = pChar s"
  "initialized (snd (startAdvertising iv stk s)) = initialized s"
  "deviceConnected (snd (startAdvertising iv stk s)) = deviceConnected s"
  "messageHandler (snd (startAdvertising iv stk s)) = messageHandler s"
  "messagesReceived (snd (startAdvertising iv stk s)) = messagesReceived s"
  "messagesSent (snd (startAdvertising iv stk s)) = messagesSent s"
  "errorCount (snd (startAdvertising iv stk s)) = errorCount s"
  "startTime (snd (startAdvertising iv stk s)) = startTime s"
  "deviceName (snd (startAdvertising iv stk s)) = deviceName s"
  by (simp_all add: startAdvertising_def NimBLEDevice_startAdvertising_def Let_def)

lemma setupService_fails:
  "createService_ok stk = False \<or> createCharacteristic_res stk = None \<or>
   serviceStart_ok stk = False \<Longrightarrow> fst (setupService stk s) = False"
  by (auto simp: setupService_def Let_def)

lemma startAdvertising_fails:
  "getAdvertising_ok stk = False \<or> startAdvertising_ok stk = False \<Longrightarrow>
   fst (startAdvertising iv stk s) = False"
  by (auto simp: startAdvertising_def NimBLEDevice_startAdvertising_def Let_def)

lemma begin_initialized_guard:
  "initialized s \<Longrightarrow> BeamLink_begin n p i su cu stk now s = (False, s)"
  by (simp add: BeamLink_begin_def)

lemma begin_name_guard:
  "n = None \<or> n = Some [] \<Longrightarrow> BeamLink_begin n p i su cu stk now s = (False, s)"
  by (auto simp: BeamLink_begin_def)

lemma begin_initialized:
  "initialized (snd (BeamLink_begin n p i su cu stk now s)) =
     (initialized s \<or> fst (BeamLink_begin n p i su cu stk now s))"
  by (simp add: BeamLink_begin_def Let_def split_beta setupService_keeps startAdvertising_keeps
      split: option.split)

lemma begin_pChar:
  "fst (BeamLink_begin n p i su cu stk now s) \<Longrightarrow>
   pChar (snd (BeamLink_begin n p i su cu stk now s)) \<noteq> None"
proof (cases "initialized s \<or> n = None \<or> n = Some []")
  case True
  then have "BeamLink_begin n p i su cu stk now s = (False, s)"
    using begin_initialized_guard begin_name_guard by blast
  then show "fst (BeamLink_begin n p i su cu stk now s) \<Longrightarrow> ?thesis" by simp
next
  case False
  then obtain name where n: "n = Some name" "name \<noteq> []" "\<not> initialized s" by auto
  show "fst (BeamLink_begin n p i su cu stk now s) \<Longrightarrow> ?thesis"
    using n setupService_True
    by (simp add: BeamLink_begin_def Let_def split_beta startAdvertising_keeps
        split: if_splits)
qed

lemma begin_stack_fails:
  "createServer_res stk = None \<or> createService_ok stk = False \<or>
   createCharacteristic_res stk = None \<or> serviceStart_ok stk = False \<or>
   getAdvertising_ok stk = False \<or> startAdvertising_ok stk = False \<Longrightarrow>
   fst (BeamLink_begin n p i su cu stk now s) = False"
  by (auto simp: BeamLink_begin_def Let_def split_beta setupService_fails startAdvertising_fails
      split: option.split)

lemma begin_cases:
  obtains (guard) "BeamLink_begin n p i su cu stk now s = (False, s)"
  | (body) name where "n = Some name" "name \<noteq> []" "\<not> initialized s"
proof (cases "initialized s \<or> n = None \<or> n = Some []")
  case True
  then show ?thesis using begin_initialized_guard begin_name_guard guard by blast
next
  case False
  then show ?thesis using body by auto
qed

lemma begin_failed_keeps:
  assumes "fst (BeamLink_begin n p i su cu stk now s) = False"
  shows "initialized (snd (BeamLink_begin n p i su cu stk now s)) = initialized s \<and>
    deviceConnected (snd (BeamLink_begin n p i su cu stk now s)) = deviceConnected s \<and>
    messageHandler (snd (BeamLink_begin n p i su cu stk now s)) = messageHandler s \<and>
    messagesReceived (snd (BeamLink_begin n p i su cu stk now s)) = messagesReceived s \<and>
    messagesSent (snd (BeamLink_begin n p i su cu stk now s)) = messagesSent s \<and>
    errorCount (snd (BeamLink_begin n p i su cu stk now s)) = errorCount s \<and>
    startTime (snd (BeamLink_begin n p i su cu stk now s)) = startTime s"
proof (rule begin_cases [of n p i su cu stk now s])
  assume "BeamLink_begin n p i su cu stk now s = (False, s)"
  then show ?thesis by simp
next
  fix name
  assume "n = Some name" "name \<noteq> []" "\<not> initialized s"
  then show ?thesis
    using assms
    by (simp add: BeamLink_begin_def Let_def split_beta setupService_keeps
        startAdvertising_keeps split: if_splits)
qed

lemma begin_succeeded:
  assumes "fst (BeamLink_begin n p i su cu stk now s)"
  shows "initialized (snd (BeamLink_begin n p i su cu stk now s)) \<and>
    n = Some (deviceName (snd (BeamLink_begin n p i su cu stk now s))) \<and>
    messagesReceived (snd (BeamLink_begin n p i su cu stk now s)) = 0 \<and>
    messagesSent (snd (BeamLink_begin n p i su cu stk now s)) = 0 \<and>
    errorCount (snd (BeamLink_begin n p i su cu stk now s)) = 0 \<and>
    startTime (snd (BeamLink_begin n p i su cu stk now s)) = now"
proof (rule begin_cases [of n p i su cu stk now s])
  assume "BeamLink_begin n p i su cu stk now s = (False, s)"
  then show ?thesis using assms by simp
next
  fix name
  assume "n = Some name" "name \<noteq> []" "\<not> initialized s"
  then show ?thesis
    using assms
    by (simp add: BeamLink_begin_def Let_def split_beta setupService_keeps
        startAdvertising_keeps split: if_splits)
qed

lemma begin_inv: "engine_inv s \<Longrightarrow> engine_inv (snd (BeamLink_begin n p i su cu stk now s))"
  using begin_pChar [of n p i su cu stk now s] begin_initialized_guard [of s n p i su cu stk now]
  by (cases "initialized s") (simp_all add: engine_inv_def begin_initialized)

lemma step_inv: "engine_inv s \<Longrightarrow> engine_inv (step c s)"
proof (cases c)
  case (Begin n p i su cu stk now)
  then show "engine_inv s \<Longrightarrow> ?thesis" using begin_inv by simp
next
  case (EvWrite rx)
  then show "engine_inv s \<Longrightarrow> ?thesis"
    by (simp add: engine_inv_def onWrite_def Let_def fold_notify_initialized
        fold_notify_pChar split: option.split)
qed (simp_all add: engine_inv_def onMessage_def resetStats_def loop_def BeamLink_end_def
      onConnect_def onDisconnect_def NimBLEDevice_startAdvertising_def Let_def
      notify_initialized notify_pChar)

lemma run_inv: "engine_inv s \<Longrightarrow> engine_inv (run cs s)"
  unfolding run_def by (induction cs arbitrary: s) (simp_all add: step_inv)

lemma new_inv: "engine_inv BeamLink_new"
  by (simp add: engine_inv_def BeamLink_new_def)

text \<open>
  C1. On an engine that is initialized and connected, at any point of its history, a text
  \<open>T\<close> longer than MTU - 3 bytes is sent truncated: \<open>notify\<close> returns true, the frame
  that goes out is the first MTU - 3 bytes of \<open>T\<close>, the error counter goes up by one and
  so does the counter of sent messages; nothing else changes. The MTU is at least 3 (the
  stack reports no MTU under 23), so that MTU - 3 is the subtraction of the code.
\<close>

theorem notify_truncates_oversized:
  assumes "s = run cs BeamLink_new" and "initialized s" and "isConnected s"
    and "3 \<le> unat (getMTU s)" and "length T > unat (getMTU s) - 3"
  shows "notify T s =
           (True, s\<lparr>errorCount := errorCount s + 1,
                     charValue := take (unat (getMTU s) - 3) T,
                     notified := notified s @ [take (unat (getMTU s) - 3) T],
                     messagesSent := messagesSent s + 1\<rparr>)"
proof -
  have pc: "pChar s \<noteq> None"
    using run_inv [OF new_inv, of cs] assms(1,2) by (simp add: engine_inv_def)
  have m: "getMTU s = mtu s" using assms(2) by (simp add: getMTU_def)
  have le: "(3::u16) \<le> mtu s" using assms(4) m by (simp add: word_le_nat_alt)
  have u: "unat (mtu s - 3) = unat (mtu s) - 3"
    using le by (simp add: unat_sub)
  have ne: "T \<noteq> []" using assms(5) by auto
  show ?thesis
    using assms(2,3,5) pc ne u m by (simp add: notify_def isConnected_def Let_def)
qed

theorem notify_truncates_oversized_witness:
  "initialized ex_connected \<and> isConnected ex_connected \<and> getMTU ex_connected = 23 \<and>
   length ''abcdefghijklmnopqrstuvwxyz'' = 26 \<and>
   notify ''abcdefghijklmnopqrstuvwxyz'' ex_connected =
     (True, ex_connected\<lparr>errorCount := 1, charValue := ''abcdefghijklmnopqrst'',
                          notified := [''abcdefghijklmnopqrst''], messagesSent := 1\<rparr>)"
proof -
  have a: "initialized ex_connected" "isConnected ex_connected" "getMTU ex_connected = 23"
    by (simp_all add: ex_connected_eq isConnected_def getMTU_def)
  have b: "3 \<le> unat (getMTU ex_connected)"
    "length ''abcdefghijklmnopqrstuvwxyz'' > unat (getMTU ex_connected) - 3"
    by (simp_all add: a)
  have c: "errorCount ex_connected = 0" "messagesSent ex_connected = 0"
    "notified ex_connected = []"
    by (simp_all add: ex_connected_eq)
  show ?thesis
    using notify_truncates_oversized [OF ex_connected_def a(1) a(2) b] a c by simp
qed

text \<open>
  C6. When the engine is not initialized, or no peer is connected, or the text is empty,
  \<open>notify\<close> returns false, adds one to the error counter and transmits nothing: the
  frames sent, the characteristic's value and the counter of sent messages stay as they
  were, and so does the rest of the state.
\<close>

theorem notify_fails_without_peer:
  assumes "initialized s = False \<or> isConnected s = False \<or> T = []"
  shows "fst (notify T s) = False \<and>
         getErrors (snd (notify T s)) = getErrors s + 1 \<and>
         notified (snd (notify T s)) = notified s \<and>
         charValue (snd (notify T s)) = charValue s \<and>
         getMessagesSent (snd (notify T s)) = getMessagesSent s \<and>
         snd (notify T s) = s\<lparr>errorCount := errorCount s + 1\<rparr>"
  using assms
  by (auto simp: notify_def isConnected_def getErrors_def getMessagesSent_def)

theorem notify_fails_without_peer_witness:
  "initialized BeamLink_new = False \<and> isConnected BeamLink_new = False \<and>
   fst (notify ''hi'' BeamLink_new) = False \<and>
   getErrors (snd (notify ''hi'' BeamLink_new)) = 1 \<and>
   notified (snd (notify ''hi'' BeamLink_new)) = []"
proof -
  have a: "initialized BeamLink_new = False" "isConnected BeamLink_new = False"
    "getErrors BeamLink_new = 0" "notified BeamLink_new = []"
    by (simp_all add: BeamLink_new_def isConnected_def getErrors_def)
  show ?thesis
    using notify_fails_without_peer [of BeamLink_new "''hi''"] a
    by (simp add: getErrors_def)
qed


text \<open>
  C8. After \<open>resetStats\<close> the three counters are zero and the start time is the current
  instant (the uptime read at that instant is zero); the device name, the connection
  state and every other field of the engine and of the stack are as before.
\<close>

theorem resetStats_clears_counters_only:
  "getMessagesReceived (resetStats now s) = 0 \<and>
   getMessagesSent (resetStats now s) = 0 \<and>
   getErrors (resetStats now s) = 0 \<and>
   startTime (resetStats now s) = now \<and>
   getUptime now (resetStats now s) = 0 \<and>
   getDeviceName (resetStats now s) = getDeviceName s \<and>
   isConnected (resetStats now s) = isConnected s \<and>
   connectionState (resetStats now s) = connectionState s \<and>
   initialized (resetStats now s) = initialized s \<and>
   pServer (resetStats now s) = pServer s \<and>
   pChar (resetStats now s) = pChar s \<and>
   messageHandler (resetStats now s) = messageHandler s \<and>
   serviceUuid (resetStats now s) = serviceUuid s \<and>
   characteristicUuid (resetStats now s) = characteristicUuid s \<and>
   bleInitName (resetStats now s) = bleInitName s \<and>
   txPower (resetStats now s) = txPower s \<and>
   mtu (resetStats now s) = mtu s \<and>
   advServiceUuids (resetStats now s) = advServiceUuids s \<and>
   advIntervalUnits (resetStats now s) = advIntervalUnits s \<and>
   advertising (resetStats now s) = advertising s \<and>
   charValue (resetStats now s) = charValue s \<and>
   notified (resetStats now s) = notified s \<and>
   handled (resetStats now s) = handled s"
  by (simp add: resetStats_def getMessagesReceived_def getMessagesSent_def getErrors_def
      getUptime_def getDeviceName_def isConnected_def connectionState_def)

text \<open>
  C5 does not hold as stated: an empty frame written to the example engine leaves its
  error counter where it was.
\<close>

theorem onWrite_empty_counts_error_counterexample:
  "getErrors (onWrite [] ex_connected) = getErrors ex_connected \<and>
   getErrors (onWrite [] ex_connected) \<noteq> getErrors ex_connected + 1"
  by (simp add: onWrite_def getErrors_def)

text \<open>
  C5, amended. An inbound frame whose content is empty is dropped without a trace: the
  handler is not invoked, the frame is not counted as received, and the error counter,
  like the rest of the state, is unchanged.
\<close>

theorem onWrite_empty_dropped:
  "onWrite [] s = s \<and>
   handled (onWrite [] s) = handled s \<and>
   getMessagesReceived (onWrite [] s) = getMessagesReceived s \<and>
   getErrors (onWrite [] s) = getErrors s"
  by (simp add: onWrite_def)

text \<open>
  C4 does not hold as stated: on a new engine, a \<open>begin\<close> that fails because the stack
  creates no server returns false and has already stored the device name.
\<close>

theorem begin_failure_mutates_counterexample:
  "fst (BeamLink_begin (Some ''Dev'') 9 100 None None stack_no_server 0 BeamLink_new) = False \<and>
   getDeviceName BeamLink_new = [] \<and>
   getDeviceName
     (snd (BeamLink_begin (Some ''Dev'') 9 100 None None stack_no_server 0 BeamLink_new))
     = ''Dev''"
  by (simp add: BeamLink_begin_def BeamLink_new_def stack_no_server_def stack_ok_def
      getDeviceName_def Let_def)

text \<open>
  C4, amended. \<open>begin\<close> changes nothing and returns false when the engine is already
  initialized or the name is missing or empty. It returns false when the stack creates no
  server, service or characteristic, does not start the service, or does not start
  advertising; whenever it returns false the engine is as initialized as before, and the
  connected flag, the three counters and the start time are untouched. After a \<open>begin\<close>
  that succeeded, a second \<open>begin\<close> with any arguments returns false and changes
  nothing: the device name is the one of the first call and the counters are zero.
\<close>

theorem begin_failure:
  "(initialized s \<or> n = None \<or> n = Some [] \<longrightarrow>
      BeamLink_begin n p i su cu stk now s = (False, s)) \<and>
   (createServer_res stk = None \<or> createService_ok stk = False \<or>
    createCharacteristic_res stk = None \<or> serviceStart_ok stk = False \<or>
    getAdvertising_ok stk = False \<or> startAdvertising_ok stk = False \<longrightarrow>
      fst (BeamLink_begin n p i su cu stk now s) = False) \<and>
   (fst (BeamLink_begin n p i su cu stk now s) = False \<longrightarrow>
      initialized (snd (BeamLink_begin n p i su cu stk now s)) = initialized s \<and>
      isConnected (snd (BeamLink_begin n p i su cu stk now s)) = isConnected s \<and>
      getMessagesReceived (snd (BeamLink_begin n p i su cu stk now s))
        = getMessagesReceived s \<and>
      getMessagesSent (snd (BeamLink_begin n p i su cu stk now s)) = getMessagesSent s \<and>
      getErrors (snd (BeamLink_begin n p i su cu stk now s)) = getErrors s \<and>
      startTime (snd (BeamLink_begin n p i su cu stk now s)) = startTime s) \<and>
   (fst (BeamLink_begin n p i su cu stk now s) \<longrightarrow>
      BeamLink_begin n' p' i' su' cu' stk' now' (snd (BeamLink_begin n p i su cu stk now s))
        = (False, snd (BeamLink_begin n p i su cu stk now s)) \<and>
      n = Some (getDeviceName (snd (BeamLink_begin n p i su cu stk now s))) \<and>
      getMessagesReceived (snd (BeamLink_begin n p i su cu stk now s)) = 0 \<and>
      getMessagesSent (snd (BeamLink_begin n p i su cu stk now s)) = 0 \<and>
      getErrors (snd (BeamLink_begin n p i su cu stk now s)) = 0)"
proof (intro conjI impI)
  assume "initialized s \<or> n = None \<or> n = Some []"
  then show "BeamLink_begin n p i su cu stk now s = (False, s)"
    using begin_initialized_guard begin_name_guard by blast
next
  assume "createServer_res stk = None \<or> createService_ok stk = False \<or>
    createCharacteristic_res stk = None \<or> serviceStart_ok stk = False \<or>
    getAdvertising_ok stk = False \<or> startAdvertising_ok stk = False"
  then show "fst (BeamLink_begin n p i su cu stk now s) = False"
    by (rule begin_stack_fails)
next
  assume f: "fst (BeamLink_begin n p i su cu stk now s) = False"
  note k = begin_failed_keeps [OF f]
  show "initialized (snd (BeamLink_begin n p i su cu stk now s)) = initialized s"
    using k by simp
  show "isConnected (snd (BeamLink_begin n p i su cu stk now s)) = isConnected s"
    using k by (simp add: isConnected_def)
  show "getMessagesReceived (snd (BeamLink_begin n p i su cu stk now s))
        = getMessagesReceived s"
    using k by (simp add: getMessagesReceived_def)
  show "getMessagesSent (snd (BeamLink_begin n p i su cu stk now s)) = getMessagesSent s"
    using k by (simp add: getMessagesSent_def)
  show "getErrors (snd (BeamLink_begin n p i su cu stk now s)) = getErrors s"
    using k by (simp add: getErrors_def)
  show "startTime (snd (BeamLink_begin n p i su cu stk now s)) = startTime s"
    using k by simp
next
  assume t: "fst (BeamLink_begin n p i su cu stk now s)"
  note k = begin_succeeded [OF t]
  show "BeamLink_begin n' p' i' su' cu' stk' now' (snd (BeamLink_begin n p i su cu stk now s))
        = (False, snd (BeamLink_begin n p i su cu stk now s))"
    using k by (simp add: begin_initialized_guard)
  show "n = Some (getDeviceName (snd (BeamLink_begin n p i su cu stk now s)))"
    using k by (simp add: getDeviceName_def)
  show "getMessagesReceived (snd (BeamLink_begin n p i su cu stk now s)) = 0"
    using k by (simp add: getMessagesReceived_def)
  show "getMessagesSent (snd (BeamLink_begin n p i su cu stk now s)) = 0"
    using k by (simp add: getMessagesSent_def)
  show "getErrors (snd (BeamLink_begin n p i su cu stk now s)) = 0"
    using k by (simp add: getErrors_def)
qed

theorem begin_failure_witness:
  "initialized ex_connected \<and>
   BeamLink_begin (Some ''Dev2'') 9 100 None None stack_ok 7 ex_connected
     = (False, ex_connected) \<and>
   createServer_res stack_no_server = None \<and>
   fst (BeamLink_begin (Some ''Dev'') 9 100 None None stack_no_server 0 BeamLink_new)
     = False \<and>
   initialized (snd (BeamLink_begin (Some ''Dev'') 9 100 None None stack_no_server 0
     BeamLink_new)) = False \<and>
   fst (BeamLink_begin (Some ''Dev'') 9 100 None None stack_ok 5 BeamLink_new) \<and>
   BeamLink_begin (Some ''Dev2'') 9 100 None None stack_ok 7
       (snd (BeamLink_begin (Some ''Dev'') 9 100 None None stack_ok 5 BeamLink_new))
     = (False, snd (BeamLink_begin (Some ''Dev'') 9 100 None None stack_ok 5 BeamLink_new)) \<and>
   getDeviceName (snd (BeamLink_begin (Some ''Dev'') 9 100 None None stack_ok 5 BeamLink_new))
     = ''Dev''"
proof -
  have a: "initialized ex_connected"
    by (simp add: ex_connected_eq)
  have b: "createServer_res stack_no_server = None"
    by (simp add: stack_no_server_def)
  have c: "initialized BeamLink_new = False"
    by (simp add: BeamLink_new_def)
  have d: "fst (BeamLink_begin (Some ''Dev'') 9 100 None None stack_ok 5 BeamLink_new)"
    by (simp add: BeamLink_begin_def BeamLink_new_def stack_ok_def setupService_def
        startAdvertising_def NimBLEDevice_startAdvertising_def Let_def)
  note w1 = begin_failure [of ex_connected "Some ''Dev2''" 9 100 None None stack_ok 7]
  note w2 = begin_failure [of BeamLink_new "Some ''Dev''" 9 100 None None stack_no_server 0]
  note w3 = begin_failure [of BeamLink_new "Some ''Dev''" 9 100 None None stack_ok 5
      "Some ''Dev2''" 9 100 None None stack_ok 7]
  have e: "BeamLink_begin (Some ''Dev2'') 9 100 None None stack_ok 7 ex_connected
     = (False, ex_connected)"
    using w1 a by blast
  have f: "fst (BeamLink_begin (Some ''Dev'') 9 100 None None stack_no_server 0 BeamLink_new)
     = False"
    using w2 b by blast
  have g: "initialized (snd (BeamLink_begin (Some ''Dev'') 9 100 None None stack_no_server 0
     BeamLink_new)) = False"
    using w2 f c by simp
  have h: "BeamLink_begin (Some ''Dev2'') 9 100 None None stack_ok 7
       (snd (BeamLink_begin (Some ''Dev'') 9 100 None None stack_ok 5 BeamLink_new))
     = (False, snd (BeamLink_begin (Some ''Dev'') 9 100 None None stack_ok 5 BeamLink_new))"
    using w3 d by blast
  have i: "getDeviceName
     (snd (BeamLink_begin (Some ''Dev'') 9 100 None None stack_ok 5 BeamLink_new)) = ''Dev''"
    using w3 d by simp
  show ?thesis
    using a b d e f g h i by blast
qed

section \<open>Properties of the state store\<close>

lemma ex_dirty_eq:
  "ex_dirty =
     \<lparr>config = NexStateConfig_default\<lparr>outputOnChange := False\<rparr>,
      stateValues =
        [(''ledOn'', SBool \<lparr>currentValue = False, previousValue = True, changed = True\<rparr>)],
      changeCallback = Some ex_callback, lastOutputTime = 0, serial = [],
      callbackCalls = []\<rparr>"
  by (simp add: ex_dirty_def store_run_def NexState_new_def NexState_set_def subscribe_def
      NexStateConfig_default_def StateValue_new_def setValue_def neq_def)

lemma ex_quiet_eq:
  "ex_quiet =
     \<lparr>config = NexStateConfig_default\<lparr>enableSerialOutput := False\<rparr>,
      stateValues =
        [(''ledOn'', SBool \<lparr>currentValue = False, previousValue = True, changed = True\<rparr>)],
      changeCallback = None, lastOutputTime = 0, serial = [],
      callbackCalls = []\<rparr>"
  by (simp add: ex_quiet_def store_run_def NexState_new_def NexState_set_def
      NexStateConfig_default_def StateValue_new_def setValue_def neq_def
      checkAndOutput_def outputState_def hasAnyChanged_def StateValue_hasChanged_def)

lemma store_run_Nil: "store_run f2s [] s = s"
  by (simp add: store_run_def)

lemma store_run_Cons:
  "store_run f2s (c # cs) s = store_run f2s cs (store_step f2s c s)"
  by (simp add: store_run_def)

lemma keys_markAllAsRead:
  "map fst (stateValues (markAllAsRead s)) = map fst (stateValues s)"
  by (simp add: markAllAsRead_def comp_def)

lemma keys_outputState:
  "map fst (stateValues (outputState f2s now s)) = map fst (stateValues s)"
  by (simp add: outputState_def outputJsonState_def outputTextState_def Let_def
      keys_markAllAsRead)

lemma keys_checkAndOutput:
  "map fst (stateValues (checkAndOutput f2s now s)) = map fst (stateValues s)"
  by (simp add: checkAndOutput_def keys_outputState)

lemma keys_update:
  "map fst (stateValues (update f2s now now' s)) = map fst (stateValues s)"
  by (simp add: update_def keys_outputState)

lemma map_of_SomeD_key: "map_of al k = Some e \<Longrightarrow> k \<in> set (map fst al)"
  using map_of_eq_None_iff [of al k] by auto

lemma keys_markAsRead:
  "map fst (stateValues (markAsRead T key s)) = map fst (stateValues s)"
  by (auto simp: markAsRead_def AList.update_keys dest: map_of_SomeD_key
      split: option.split)

lemmas store_keys =
  keys_markAllAsRead keys_outputState keys_checkAndOutput keys_update keys_markAsRead

lemmas store_run_simps = store_run_Nil store_run_Cons

lemma keys_set:
  "map fst (stateValues (NexState_set f2s key v now s)) =
     (if key \<in> set (map fst (stateValues s)) then map fst (stateValues s)
      else key # map fst (stateValues s))"
proof (cases "map_of (stateValues s) key")
  case None
  then have "key \<notin> set (map fst (stateValues s))"
    by (simp add: map_of_eq_None_iff)
  then show ?thesis
    using None by (simp add: NexState_set_def Let_def store_keys)
next
  case (Some e)
  then have "key \<in> set (map fst (stateValues s))"
    by (rule map_of_SomeD_key)
  then show ?thesis
    using Some by (simp add: NexState_set_def Let_def AList.update_keys store_keys)
qed

lemma keys_store_run:
  "distinct (map fst (stateValues s)) \<Longrightarrow>
   distinct (map fst (stateValues (store_run f2s cs s))) \<and>
   set (map fst (stateValues (store_run f2s cs s)))
     = live_keys cs (set (map fst (stateValues s)))"
proof (induction cs arbitrary: s)
  case Nil
  then show ?case by (simp add: store_run_simps)
next
  case (Cons c cs)
  show ?case
  proof (cases c)
    case (Set key v now)
    have "distinct (map fst (stateValues (NexState_set f2s key v now s)))"
      using Cons.prems by (simp only: keys_set) simp
    moreover have "set (map fst (stateValues (NexState_set f2s key v now s)))
        = insert key (set (map fst (stateValues s)))"
      by (simp only: keys_set) auto
    ultimately show ?thesis
      using Cons.IH [of "NexState_set f2s key v now s"] Set by (simp add: store_run_simps)
  next
    case (MarkAsRead T key)
    then show ?thesis
      using Cons.IH [of "markAsRead T key s"] Cons.prems by (simp add: store_run_simps store_keys)
  next
    case MarkAllAsRead
    then show ?thesis using Cons.IH [of "markAllAsRead s"] Cons.prems by (simp add: store_run_simps store_keys)
  next
    case (Update now now')
    then show ?thesis using Cons.IH [of "update f2s now now' s"] Cons.prems by (simp add: store_run_simps store_keys)
  next
    case (OutputState now)
    then show ?thesis using Cons.IH [of "outputState f2s now s"] Cons.prems by (simp add: store_run_simps store_keys)
  next
    case (Subscribe cb)
    then show ?thesis using Cons.IH [of "subscribe cb s"] Cons.prems by (simp add: store_run_simps subscribe_def)
  next
    case Clear
    then show ?thesis using Cons.IH [of "clear s"] by (simp add: store_run_simps clear_def)
  qed
qed

lemma mark_all_map_of:
  "map_of (map (\<lambda>pair. (fst pair, f (snd pair))) al) k = map_option f (map_of al k)"
  by (induction al) auto

lemma markAsRead_clean: "variant_hasChanged (variant_markAsRead e) = False"
  by (cases e) (simp_all add: StateValue_hasChanged_def StateValue_markAsRead_def)

lemma markAsRead_kind: "variant_kind (variant_markAsRead e) = variant_kind e"
  by (cases e) simp_all

lemma fresh_clean: "variant_hasChanged (fresh v) = False"
  by (cases v) (simp_all add: StateValue_hasChanged_def StateValue_new_def)

lemma fresh_kind: "variant_kind (fresh v) = val_kind v"
  by (cases v) simp_all

lemma markAsRead_fresh: "variant_markAsRead (fresh v) = fresh v"
  by (cases v) (simp_all add: StateValue_markAsRead_def StateValue_new_def)

lemma set_entry_fresh: "\<not> val_ne v v \<Longrightarrow> set_entry v (fresh v) = fresh v"
  by (cases v) (simp_all add: setValue_def neq_def StateValue_new_def)

lemma set_entry_kind: "variant_kind (set_entry v e) = val_kind v"
  by (cases v; cases e) simp_all

lemmas entry_facts =
  markAsRead_clean markAsRead_kind fresh_clean fresh_kind markAsRead_fresh set_entry_kind

lemma set_entry_keeps_flag:
  "variant_kind e = val_kind v \<Longrightarrow> variant_hasChanged e \<Longrightarrow> variant_hasChanged (set_entry v e)"
  by (cases v; cases e) (simp_all add: setValue_def StateValue_hasChanged_def)

lemma set_entry_ok: "entry_ok e \<Longrightarrow> entry_ok (set_entry v e)"
  by (cases v; cases e)
    (auto simp: entry_ok_def setValue_def neq_def StateValue_hasChanged_def StateValue_new_def)

lemma fresh_ok: "entry_ok (fresh v)"
  by (simp add: entry_ok_def fresh_clean)

lemma markAsRead_ok: "entry_ok (variant_markAsRead e)"
  by (simp add: entry_ok_def markAsRead_clean)

lemma stateValues_outputState:
  "stateValues (outputState f2s now s) =
     (if enableSerialOutput (config s)
      then map (\<lambda>pair. (fst pair, variant_markAsRead (snd pair))) (stateValues s)
      else stateValues s)"
  by (simp add: outputState_def outputJsonState_def outputTextState_def markAllAsRead_def Let_def)

lemma stateValues_checkAndOutput:
  "stateValues (checkAndOutput f2s now s) = stateValues s \<or>
   stateValues (checkAndOutput f2s now s) =
     map (\<lambda>pair. (fst pair, variant_markAsRead (snd pair))) (stateValues s)"
  by (simp add: checkAndOutput_def stateValues_outputState)

lemma checkAndOutput_inactive:
  "\<not> on_change_active (config s) \<Longrightarrow> outputOnChange (config s) \<Longrightarrow>
   checkAndOutput f2s now s = s"
  by (auto simp: on_change_active_def checkAndOutput_def outputState_def)

lemma NexState_set_upsert:
  "NexState_set f2s key v now s =
     (if outputOnChange (config s) then checkAndOutput f2s now (upsert key v s)
      else upsert key v s)"
  by (simp add: NexState_set_def upsert_def Let_def split: option.split)

lemma upsert_config: "config (upsert key v s) = config s"
  by (simp add: upsert_def split: option.split)

lemma upsert_map_of:
  "map_of (stateValues (upsert key v s)) key =
     Some (case map_of (stateValues s) key of Some e \<Rightarrow> set_entry v e | None \<Rightarrow> fresh v)"
  by (simp add: upsert_def update_conv' map_add_def split: option.split)

lemma set_map_of:
  "map_of (stateValues (NexState_set f2s key v now s)) key = Some u \<Longrightarrow>
   u = (case map_of (stateValues s) key of Some e \<Rightarrow> set_entry v e | None \<Rightarrow> fresh v) \<or>
   u = variant_markAsRead
         (case map_of (stateValues s) key of Some e \<Rightarrow> set_entry v e | None \<Rightarrow> fresh v)"
  using stateValues_checkAndOutput [of f2s now "upsert key v s"] upsert_map_of [of key v s]
  by (auto simp: NexState_set_upsert mark_all_map_of upsert_config split: if_splits)

lemma set_map_of_Some:
  "\<exists>u. map_of (stateValues (NexState_set f2s key v now s)) key = Some u"
  using stateValues_checkAndOutput [of f2s now "upsert key v s"] upsert_map_of [of key v s]
  by (auto simp: NexState_set_upsert mark_all_map_of upsert_config split: if_splits)

lemma first_set_clean:
  assumes "map_of (stateValues s) key = None"
  shows "map_of (stateValues (NexState_set f2s key v now s)) key = Some (fresh v)"
proof -
  obtain u where u: "map_of (stateValues (NexState_set f2s key v now s)) key = Some u"
    using set_map_of_Some by blast
  then show ?thesis using set_map_of [OF u] assms by (auto simp: entry_facts)
qed

lemma second_set_clean:
  assumes "map_of (stateValues s) key = Some (fresh v)" and "\<not> val_ne v v"
  shows "map_of (stateValues (NexState_set f2s key v now s)) key = Some (fresh v)"
proof -
  obtain u where u: "map_of (stateValues (NexState_set f2s key v now s)) key = Some u"
    using set_map_of_Some by blast
  then show ?thesis using set_map_of [OF u] assms by (auto simp: set_entry_fresh entry_facts)
qed

lemma hasChanged_fresh:
  "map_of (stateValues s) key = Some (fresh v) \<Longrightarrow> hasChanged T key s = False"
  by (simp add: hasChanged_def entry_facts)

lemma set_keeps_flag:
  assumes "hasChanged (val_kind v) key s" and "\<not> on_change_active (config s)"
  shows "hasChanged (val_kind v) key (NexState_set f2s key v now s)"
proof -
  obtain e where e: "map_of (stateValues s) key = Some e" "variant_kind e = val_kind v"
      "variant_hasChanged e"
    using assms(1) by (auto simp: hasChanged_def split: option.splits if_splits)
  have "NexState_set f2s key v now s = upsert key v s"
    using assms(2) checkAndOutput_inactive [of "upsert key v s" f2s now]
    by (simp add: NexState_set_upsert upsert_config)
  then show ?thesis
    using e upsert_map_of [of key v s] set_entry_keeps_flag [of e v]
    by (simp add: hasChanged_def entry_facts)
qed

lemma markAsRead_clears: "hasChanged T key (markAsRead T key s) = False"
  by (simp add: hasChanged_def markAsRead_def update_conv' entry_facts split: option.split)

lemma markAllAsRead_clears: "hasChanged T key (markAllAsRead s) = False"
  by (simp add: hasChanged_def markAllAsRead_def mark_all_map_of entry_facts
      split: option.split)

lemma outputState_clears:
  "enableSerialOutput (config s) \<Longrightarrow> hasChanged T key (outputState f2s now s) = False"
  by (simp add: hasChanged_def stateValues_outputState mark_all_map_of entry_facts
      split: option.split)

lemma list_all_update:
  "list_all P al \<Longrightarrow> P (k, v) \<Longrightarrow> list_all P (AList.update k v al)"
  by (induction al) auto

lemma entries_ok_marked:
  "list_all (\<lambda>pair. entry_ok (snd pair))
     (map (\<lambda>pair. (fst pair, variant_markAsRead (snd pair))) al)"
  by (induction al) (simp_all add: markAsRead_ok)

lemma upsert_ok: "entries_ok s \<Longrightarrow> entries_ok (upsert key v s)"
proof (cases "map_of (stateValues s) key")
  case None
  then show "entries_ok s \<Longrightarrow> ?thesis"
    by (simp add: entries_ok_def upsert_def fresh_ok)
next
  case (Some e)
  assume ok: "entries_ok s"
  have "(key, e) \<in> set (stateValues s)"
    using Some by (rule map_of_SomeD)
  then have "entry_ok e"
    using ok by (auto simp: entries_ok_def list_all_iff)
  then show ?thesis
    using ok Some by (simp add: entries_ok_def upsert_def list_all_update set_entry_ok)
qed

lemma outputState_ok: "entries_ok s \<Longrightarrow> entries_ok (outputState f2s now s)"
  by (simp add: entries_ok_def stateValues_outputState entries_ok_marked)

lemma checkAndOutput_ok: "entries_ok s \<Longrightarrow> entries_ok (checkAndOutput f2s now s)"
  by (simp add: checkAndOutput_def outputState_ok)

lemma set_ok: "entries_ok s \<Longrightarrow> entries_ok (NexState_set f2s key v now s)"
  by (simp add: NexState_set_upsert checkAndOutput_ok upsert_ok upsert_config)

lemma markAsRead_entries_ok: "entries_ok s \<Longrightarrow> entries_ok (markAsRead T key s)"
  by (simp add: entries_ok_def markAsRead_def list_all_update markAsRead_ok
      split: option.split)

lemma step_ok: "entries_ok s \<Longrightarrow> entries_ok (store_step f2s c s)"
proof (cases c)
  case (Update now now')
  assume "entries_ok s"
  then have "entries_ok (outputState f2s now' s)" by (rule outputState_ok)
  then show ?thesis using \<open>entries_ok s\<close> Update by (simp add: update_def entries_ok_def)
qed (simp_all add: set_ok markAsRead_entries_ok outputState_ok,
     simp_all add: entries_ok_def markAllAsRead_def entries_ok_marked subscribe_def clear_def)

lemma run_ok: "entries_ok s \<Longrightarrow> entries_ok (store_run f2s cs s)"
  by (induction cs arbitrary: s) (simp_all add: step_ok store_run_simps)

lemma new_ok: "entries_ok (NexState_new cfg t0)"
  by (simp add: entries_ok_def NexState_new_def)

lemma set_raises_flag:
  assumes "map_of (stateValues s) key = Some e" and "variant_kind e = val_kind v"
    and "val_ne v (variant_value e)" and "\<not> on_change_active (config s)"
  shows "hasChanged (val_kind v) key (NexState_set f2s key v now s)"
proof -
  have "NexState_set f2s key v now s = upsert key v s"
    using assms(4) checkAndOutput_inactive [of "upsert key v s" f2s now]
    by (simp add: NexState_set_upsert upsert_config)
  moreover have "variant_hasChanged (set_entry v e)"
    using assms(2,3)
    by (cases v; cases e) (simp_all add: setValue_def neq_def StateValue_hasChanged_def)
  ultimately show ?thesis
    using assms(1) upsert_map_of [of key v s] by (simp add: hasChanged_def entry_facts)
qed

lemma outputState_frame:
  "config (outputState f2s now s) = config s \<and>
   callbackCalls (outputState f2s now s) = callbackCalls s"
  by (simp add: outputState_def outputJsonState_def outputTextState_def markAllAsRead_def
      Let_def)

lemma checkAndOutput_frame:
  "config (checkAndOutput f2s now s) = config s \<and>
   callbackCalls (checkAndOutput f2s now s) = callbackCalls s"
  by (simp add: checkAndOutput_def outputState_frame)

lemma upsert_frame:
  "config (upsert key v s) = config s \<and> callbackCalls (upsert key v s) = callbackCalls s"
  by (simp add: upsert_def split: option.split)

lemma set_frame:
  "config (NexState_set f2s key v now s) = config s \<and>
   callbackCalls (NexState_set f2s key v now s) = callbackCalls s"
  by (simp add: NexState_set_upsert checkAndOutput_frame upsert_frame)

lemma step_frame:
  "config (store_step f2s c s) = config s \<and>
   callbackCalls (store_step f2s c s) = callbackCalls s"
  by (cases c)
    (simp_all add: set_frame outputState_frame markAsRead_def markAllAsRead_def update_def
      subscribe_def clear_def split: option.split)

lemma run_frame:
  "config (store_run f2s cs s) = config s \<and>
   callbackCalls (store_run f2s cs s) = callbackCalls s"
  by (induction cs arbitrary: s) (simp_all add: store_run_simps step_frame)

text \<open>
  C10. On a store constructed with serial output disabled, after any history,
  \<open>outputState\<close> returns at once: it prints nothing, clears no dirty flag and leaves the
  interval timer alone (the store is unchanged). The on-change pass of \<^verbatim>\<open>set\<close> goes
  through it, so that \<^verbatim>\<open>set\<close> only updates or inserts its entry and clears no flag
  either.
\<close>

theorem outputState_serial_disabled:
  assumes "enableSerialOutput cfg = False" and "s = store_run f2s cs (NexState_new cfg t0)"
  shows "outputState f2s now s = s \<and>
         serial (outputState f2s now s) = serial s \<and>
         stateValues (outputState f2s now s) = stateValues s \<and>
         hasChanged T key (outputState f2s now s) = hasChanged T key s \<and>
         getChangedKeys (outputState f2s now s) = getChangedKeys s \<and>
         lastOutputTime (outputState f2s now s) = lastOutputTime s \<and>
         checkAndOutput f2s now s = s \<and>
         NexState_set f2s key v now s =
           (case map_of (stateValues s) key of
              Some e \<Rightarrow> s\<lparr>stateValues := AList.update key (set_entry v e) (stateValues s)\<rparr>
            | None \<Rightarrow> s\<lparr>stateValues := (key, fresh v) # stateValues s\<rparr>)"
proof -
  have "config s = cfg"
    using assms(2) run_frame [of f2s cs "NexState_new cfg t0"] by (simp add: NexState_new_def)
  then have off: "enableSerialOutput (config s) = False"
    using assms(1) by simp
  have o: "outputState f2s now t = t" if "enableSerialOutput (config t) = False" for t
    using that by (simp add: outputState_def)
  have c: "checkAndOutput f2s now t = t" if "enableSerialOutput (config t) = False" for t
    using that o by (simp add: checkAndOutput_def)
  show ?thesis
    using off o [of s] c
    by (simp add: NexState_set_def Let_def split: option.split)
qed

theorem outputState_serial_disabled_witness:
  "enableSerialOutput (NexStateConfig_default\<lparr>enableSerialOutput := False\<rparr>) = False \<and>
   getChangedKeys ex_quiet = [''ledOn''] \<and>
   outputState ex_f2s 3 ex_quiet = ex_quiet \<and>
   getChangedKeys (outputState ex_f2s 3 ex_quiet) = [''ledOn''] \<and>
   serial (outputState ex_f2s 3 ex_quiet) = []"
proof -
  have a: "enableSerialOutput (NexStateConfig_default\<lparr>enableSerialOutput := False\<rparr>) = False"
    by simp
  have b: "getChangedKeys ex_quiet = [''ledOn'']" "serial ex_quiet = []"
    by (simp_all add: ex_quiet_eq getChangedKeys_def StateValue_hasChanged_def)
  show ?thesis
    using outputState_serial_disabled [OF a ex_quiet_def, of 3] a b by simp
qed

text \<open>
  C3. The code stores the subscriber and never invokes it. On the example store, with a
  subscriber registered and one dirty key, \<open>outputState\<close> clears the flag and rebases the
  timer, and the subscriber has not been invoked; on any store \<open>outputState\<close> adds no
  invocation, and no history of a store holds one.
\<close>

theorem outputState_never_calls_subscriber:
  "changeCallback ex_dirty = Some ex_callback \<and>
   getChangedKeys ex_dirty = [''ledOn''] \<and>
   callbackCalls (outputState ex_f2s 3 ex_dirty) = [] \<and>
   getChangedKeys (outputState ex_f2s 3 ex_dirty) = [] \<and>
   lastOutputTime (outputState ex_f2s 3 ex_dirty) = 3 \<and>
   callbackCalls (outputState f2s now s) = callbackCalls s \<and>
   callbackCalls (store_run f2s cs (NexState_new cfg t0)) = []"
  using run_frame [of f2s cs "NexState_new cfg t0"]
  by (simp add: ex_dirty_eq getChangedKeys_def StateValue_hasChanged_def outputState_def
      outputJsonState_def outputTextState_def markAllAsRead_def NexStateConfig_default_def
      StateValue_markAsRead_def Let_def NexState_new_def)

text \<open>
  C2 does not hold as stated. After \<^verbatim>\<open>set("ledOn", true)\<close> on a new store the key is
  not dirty: the entry is constructed clean. And after \<^verbatim>\<open>markAllAsRead\<close> the example
  store holds a clean entry whose current value differs from its previous value.
\<close>

theorem first_set_is_dirty_counterexample:
  "hasChanged KBool ''ledOn''
     (NexState_set ex_f2s ''ledOn'' (VBool True) 1 (NexState_new NexStateConfig_default 0))
     = False \<and>
   stateValues (markAllAsRead ex_dirty) =
     [(''ledOn'', SBool \<lparr>currentValue = False, previousValue = True, changed = False\<rparr>)] \<and>
   hasChanged KBool ''ledOn'' (markAllAsRead ex_dirty) = False"
  by (simp add: hasChanged_def NexState_set_def NexState_new_def NexStateConfig_default_def
      checkAndOutput_def hasAnyChanged_def StateValue_hasChanged_def StateValue_new_def
      ex_dirty_eq markAllAsRead_def StateValue_markAsRead_def)

text \<open>
  C2, amended. For a key not present in the store, \<open>hasChanged\<close> is false after the first
  \<^verbatim>\<open>set(key, v)\<close> and still false after a second one with the same value (a value equal
  to itself: not a NaN). Where the on-change pass is not active, a \<^verbatim>\<open>set\<close> of a value
  that differs from the current one of the same kind makes \<open>hasChanged\<close> true, and a
  \<^verbatim>\<open>set\<close> of that kind on a dirty key leaves it true. \<open>markAsRead\<close>, \<open>markAllAsRead\<close>
  and, with serial output enabled, \<open>outputState\<close> make it false. After any history, the
  current value of a dirty entry differs from its previous value.
\<close>

theorem dirty_flag_law:
  "(key \<notin> set (map fst (stateValues s)) \<longrightarrow>
      hasChanged T key (NexState_set f2s key v now s) = False \<and>
      (\<not> val_ne v v \<longrightarrow>
         hasChanged T key (NexState_set f2s key v now' (NexState_set f2s key v now s)) = False)) \<and>
   (map_of (stateValues s) key = Some e \<and> variant_kind e = val_kind v \<and>
    val_ne v (variant_value e) \<and> \<not> on_change_active (config s) \<longrightarrow>
      hasChanged (val_kind v) key (NexState_set f2s key v now s)) \<and>
   (hasChanged (val_kind v) key s \<and> \<not> on_change_active (config s) \<longrightarrow>
      hasChanged (val_kind v) key (NexState_set f2s key v now s)) \<and>
   hasChanged T key (markAsRead T key s) = False \<and>
   hasChanged T key (markAllAsRead s) = False \<and>
   (enableSerialOutput (config s) \<longrightarrow> hasChanged T key (outputState f2s now s) = False) \<and>
   ((k, d) \<in> set (stateValues (store_run f2s cs (NexState_new cfg t0))) \<and>
    variant_hasChanged d \<longrightarrow> val_ne (variant_value d) (variant_previous d))"
proof (intro conjI impI)
  assume "key \<notin> set (map fst (stateValues s))"
  then have n: "map_of (stateValues s) key = None"
    by (simp add: map_of_eq_None_iff)
  note f = first_set_clean [OF n, of f2s v now]
  show "hasChanged T key (NexState_set f2s key v now s) = False"
    using f by (rule hasChanged_fresh)
  show "hasChanged T key (NexState_set f2s key v now' (NexState_set f2s key v now s)) = False"
    if "\<not> val_ne v v"
    using second_set_clean [OF f that] by (rule hasChanged_fresh)
next
  assume "map_of (stateValues s) key = Some e \<and> variant_kind e = val_kind v \<and>
    val_ne v (variant_value e) \<and> \<not> on_change_active (config s)"
  then show "hasChanged (val_kind v) key (NexState_set f2s key v now s)"
    using set_raises_flag by blast
next
  assume "hasChanged (val_kind v) key s \<and> \<not> on_change_active (config s)"
  then show "hasChanged (val_kind v) key (NexState_set f2s key v now s)"
    using set_keeps_flag by blast
next
  show "hasChanged T key (markAsRead T key s) = False" by (rule markAsRead_clears)
  show "hasChanged T key (markAllAsRead s) = False" by (rule markAllAsRead_clears)
  show "hasChanged T key (outputState f2s now s) = False" if "enableSerialOutput (config s)"
    using that by (rule outputState_clears)
next
  assume a: "(k, d) \<in> set (stateValues (store_run f2s cs (NexState_new cfg t0))) \<and>
    variant_hasChanged d"
  have "entries_ok (store_run f2s cs (NexState_new cfg t0))"
    using new_ok by (rule run_ok)
  then have "entry_ok d"
    using a by (auto simp: entries_ok_def list_all_iff)
  then show "val_ne (variant_value d) (variant_previous d)"
    using a by (simp add: entry_ok_def)
qed

theorem dirty_flag_law_witness:
  "''ledOn'' \<notin> set (map fst (stateValues (NexState_new NexStateConfig_default 0))) \<and>
   hasChanged KBool ''ledOn''
     (NexState_set ex_f2s ''ledOn'' (VBool True) 1 (NexState_new NexStateConfig_default 0))
     = False \<and>
   hasChanged KBool ''ledOn''
     (NexState_set ex_f2s ''ledOn'' (VBool True) 2
       (NexState_set ex_f2s ''ledOn'' (VBool True) 1 (NexState_new NexStateConfig_default 0)))
     = False \<and>
   hasChanged KBool ''ledOn'' ex_dirty \<and>
   on_change_active (config ex_dirty) = False \<and>
   hasChanged KBool ''ledOn'' (NexState_set ex_f2s ''ledOn'' (VBool False) 3 ex_dirty) \<and>
   hasChanged KBool ''ledOn'' (NexState_set ex_f2s ''ledOn'' (VBool True) 3 ex_dirty) \<and>
   enableSerialOutput (config ex_dirty) \<and>
   hasChanged KBool ''ledOn'' (outputState ex_f2s 3 ex_dirty) = False \<and>
   hasChanged KBool ''ledOn'' (markAsRead KBool ''ledOn'' ex_dirty) = False \<and>
   (''ledOn'', SBool \<lparr>currentValue = False, previousValue = True, changed = True\<rparr>)
     \<in> set (stateValues ex_dirty) \<and>
   val_ne (VBool False) (VBool True)"
proof -
  let ?d = "SBool \<lparr>currentValue = False, previousValue = True, changed = True\<rparr>"
  let ?s0 = "NexState_new NexStateConfig_default 0"
  have a: "''ledOn'' \<notin> set (map fst (stateValues ?s0))" "val_ne (VBool True) (VBool True) = False"
    by (simp_all add: NexState_new_def)
  have b: "hasChanged KBool ''ledOn'' ex_dirty" "on_change_active (config ex_dirty) = False"
    "enableSerialOutput (config ex_dirty)"
    "map_of (stateValues ex_dirty) ''ledOn'' = Some ?d"
    "(''ledOn'', ?d) \<in> set (stateValues ex_dirty)" "variant_hasChanged ?d"
    by (simp_all add: ex_dirty_eq hasChanged_def StateValue_hasChanged_def
        on_change_active_def NexStateConfig_default_def)
  note w1 = dirty_flag_law [of "''ledOn''" ?s0 KBool ex_f2s "VBool True" 1 2]
  note w2 = dirty_flag_law [of "''ledOn''" ex_dirty KBool ex_f2s "VBool False" 3 3 ?d
      "''ledOn''" ?d
      "[Subscribe (Some ex_callback), Set ''ledOn'' (VBool True) 1,
        Set ''ledOn'' (VBool False) 2]"
      "NexStateConfig_default\<lparr>outputOnChange := False\<rparr>" 0]
  note w3 = dirty_flag_law [of "''ledOn''" ex_dirty KBool ex_f2s "VBool True" 3 3 ?d]
  have c: "hasChanged KBool ''ledOn'' (NexState_set ex_f2s ''ledOn'' (VBool True) 1 ?s0) = False"
    "hasChanged KBool ''ledOn''
       (NexState_set ex_f2s ''ledOn'' (VBool True) 2
         (NexState_set ex_f2s ''ledOn'' (VBool True) 1 ?s0)) = False"
    using w1 a by blast+
  have d: "hasChanged KBool ''ledOn'' (NexState_set ex_f2s ''ledOn'' (VBool False) 3 ex_dirty)"
    "hasChanged KBool ''ledOn'' (outputState ex_f2s 3 ex_dirty) = False"
    "hasChanged KBool ''ledOn'' (markAsRead KBool ''ledOn'' ex_dirty) = False"
    using w2 b by simp_all
  have e: "val_ne (VBool False) (VBool True)"
    using w2 b by (simp add: ex_dirty_def)
  have f: "hasChanged KBool ''ledOn'' (NexState_set ex_f2s ''ledOn'' (VBool True) 3 ex_dirty)"
    using w3 b by simp
  show ?thesis
    using a b c d e f by blast
qed

subsection \<open>The snapshot\<close>

lemma digit_nth: "d < 10 \<Longrightarrow> is_digit (''0123456789'' ! d)"
  unfolding is_digit_def by (rule nth_mem) simp

lemma digit_val_nth: "d < 10 \<Longrightarrow> digit_val (''0123456789'' ! d) = d"
proof -
  have "\<forall>d \<in> set [0..<10]. digit_val (''0123456789'' ! d) = d"
    by (simp add: upt_rec digit_val_def)
  then show "d < 10 \<Longrightarrow> ?thesis" by simp
qed

lemma digit_not_minus: "is_digit c \<Longrightarrow> c \<noteq> CHR ''-''"
  by (auto simp: is_digit_def)

lemma nat_to_string_digits:
  "nat_to_string n \<noteq> [] \<and> list_all is_digit (nat_to_string n)"
proof (induction n rule: nat_to_string.induct)
  case (1 n)
  show ?case
  proof (cases "n < 10")
    case True
    then show ?thesis by (simp add: nat_to_string.simps [of n] digit_nth)
  next
    case False
    then show ?thesis using 1 by (simp add: nat_to_string.simps [of n] digit_nth)
  qed
qed

lemma digits_val_snoc: "digits_val (s @ [c]) = 10 * digits_val s + digit_val c"
  by (simp add: digits_val_def)

lemma nat_to_string_val: "digits_val (nat_to_string n) = n"
proof (induction n rule: nat_to_string.induct)
  case (1 n)
  show ?case
  proof (cases "n < 10")
    case True
    then show ?thesis
      by (simp add: nat_to_string.simps [of n] digits_val_def digit_val_nth)
  next
    case False
    then show ?thesis
      using 1 by (simp add: nat_to_string.simps [of n] digits_val_snoc digit_val_nth)
  qed
qed

lemma int_to_string_literal: "is_int_literal (int_to_string v)"
proof (cases "sint v < 0")
  case True
  then show ?thesis
    using nat_to_string_digits [of "nat (- sint v)"]
    by (simp add: int_to_string_def is_int_literal_def)
next
  case False
  obtain c r where cr: "nat_to_string (nat (sint v)) = c # r"
    using nat_to_string_digits [of "nat (sint v)"] by (cases "nat_to_string (nat (sint v))") auto
  have "is_digit c" "list_all is_digit r"
    using nat_to_string_digits [of "nat (sint v)"] cr by simp_all
  then show ?thesis
    using False cr digit_not_minus [of c]
    by (simp add: int_to_string_def is_int_literal_def)
qed

lemma int_to_string_val: "int_literal_val (int_to_string v) = sint v"
proof (cases "sint v < 0")
  case True
  then show ?thesis
    by (simp add: int_to_string_def int_literal_val_def nat_to_string_val)
next
  case False
  obtain c r where cr: "nat_to_string (nat (sint v)) = c # r"
    using nat_to_string_digits [of "nat (sint v)"] by (cases "nat_to_string (nat (sint v))") auto
  have "is_digit c"
    using nat_to_string_digits [of "nat (sint v)"] cr by simp
  then have "c \<noteq> CHR ''-''" by (rule digit_not_minus)
  moreover have "digits_val (c # r) = nat (sint v)"
    using nat_to_string_val [of "nat (sint v)"] cr by simp
  ultimately show ?thesis
    using False cr by (simp add: int_to_string_def int_literal_val_def)
qed

lemma nat_to_string_length: "n < 10 ^ k \<Longrightarrow> 0 < k \<Longrightarrow> length (nat_to_string n) \<le> k"
proof (induction n arbitrary: k rule: nat_to_string.induct)
  case (1 n)
  show ?case
  proof (cases "n < 10")
    case True
    then show ?thesis using "1.prems" by (simp add: nat_to_string.simps [of n])
  next
    case False
    obtain j where j: "k = Suc j" using "1.prems"(2) by (cases k) auto
    have "j \<noteq> 0" using False "1.prems"(1) j by (cases j) auto
    moreover have "n div 10 < 10 ^ j"
      using "1.prems"(1) j by (simp add: less_mult_imp_div_less mult.commute)
    ultimately have "length (nat_to_string (n div 10)) \<le> j"
      using "1.IH" [OF False, of j] by simp
    then show ?thesis using False j by (simp add: nat_to_string.simps [of n])
  qed
qed

lemma digit_val_zero: "digit_val (CHR ''0'') = 0"
  by (simp add: digit_val_def)

lemma zero_is_digit: "is_digit (CHR ''0'')"
  by (simp add: is_digit_def)

lemma digits_val_zeros: "digits_val (replicate k (CHR ''0'') @ s) = digits_val s"
proof (induction k)
  case 0
  then show ?case by simp
next
  case (Suc k)
  then show ?case by (simp add: digits_val_def digit_val_zero)
qed

lemma digits_val_append: "digits_val (s @ t) = digits_val s * 10 ^ length t + digits_val t"
proof (induction t rule: rev_induct)
  case Nil
  then show ?case by (simp add: digits_val_def)
next
  case (snoc c t)
  have "digits_val (s @ t @ [c]) = 10 * digits_val (s @ t) + digit_val c"
    using digits_val_snoc [of "s @ t" c] by simp
  then show ?case using snoc by (simp add: digits_val_snoc algebra_simps)
qed

lemma pad_zeros_six:
  assumes "r < 10 ^ 6"
  shows "length (pad_zeros 6 (nat_to_string r)) = 6 \<and>
         list_all is_digit (pad_zeros 6 (nat_to_string r)) \<and>
         digits_val (pad_zeros 6 (nat_to_string r)) = r"
proof -
  have "length (nat_to_string r) \<le> 6"
    using assms nat_to_string_length [of r 6] by simp
  moreover have "list_all is_digit (replicate k (CHR ''0''))" for k
    by (induction k) (simp_all add: zero_is_digit)
  ultimately show ?thesis
    using nat_to_string_digits [of r]
    by (simp add: pad_zeros_def digits_val_zeros nat_to_string_val)
qed

lemma dot_not_digit: "is_digit (CHR ''.'') = False"
  by (simp add: is_digit_def)

lemma fixed_shape:
  assumes "ip \<noteq> []" and "list_all is_digit ip" and "list_all is_digit fp" and "fp \<noteq> []"
  shows "takeWhile is_digit (ip @ CHR ''.'' # fp) = ip \<and>
         dropWhile is_digit (ip @ CHR ''.'' # fp) = CHR ''.'' # fp \<and>
         unsigned_part (ip @ CHR ''.'' # fp) = ip @ CHR ''.'' # fp \<and>
         has_minus (ip @ CHR ''.'' # fp) = False \<and>
         unsigned_part (CHR ''-'' # ip @ CHR ''.'' # fp) = ip @ CHR ''.'' # fp \<and>
         has_minus (CHR ''-'' # ip @ CHR ''.'' # fp) = True"
proof -
  obtain c r where cr: "ip = c # r" using assms(1) by (cases ip) auto
  then have "c \<noteq> CHR ''-''" using assms(2) digit_not_minus by simp
  moreover have "\<forall>x \<in> set ip. is_digit x" using assms(2) by (simp add: list_all_iff)
  ultimately show ?thesis
    using cr by (simp add: takeWhile_append2 dropWhile_append2 dot_not_digit
        unsigned_part_def has_minus_def)
qed

lemma std_to_string_float_finite:
  assumes "float_isfinite w"
  shows "is_fixed_literal (std_to_string_float w) \<and>
         has_minus (std_to_string_float w) = float_sign w \<and>
         fixed_literal_decimals (std_to_string_float w) = 6 \<and>
         fixed_literal_digits (std_to_string_float w) = float_micro w"
proof -
  let ?ip = "nat_to_string (float_micro w div 10 ^ 6)"
  let ?fp = "pad_zeros 6 (nat_to_string (float_micro w mod 10 ^ 6))"
  have fp: "length ?fp = 6" "list_all is_digit ?fp" "digits_val ?fp = float_micro w mod 10 ^ 6"
    using pad_zeros_six [of "float_micro w mod 10 ^ 6"] by simp_all
  then have fpne: "?fp \<noteq> []" by auto
  have ip: "?ip \<noteq> []" "list_all is_digit ?ip"
    using nat_to_string_digits by simp_all
  note sh = fixed_shape [OF ip fp(2) fpne]
  have "digits_val (?ip @ ?fp) =
          float_micro w div 10 ^ 6 * 10 ^ 6 + float_micro w mod 10 ^ 6"
    unfolding digits_val_append fp nat_to_string_val ..
  then have v: "digits_val (?ip @ ?fp) = float_micro w"
    by simp
  show ?thesis
  proof (cases "float_sign w")
    case True
    then have "std_to_string_float w = CHR ''-'' # ?ip @ CHR ''.'' # ?fp"
      using assms by (simp add: std_to_string_float_def)
    then show ?thesis
      using sh v fp fpne ip True
      by (simp add: is_fixed_literal_def fixed_literal_digits_def fixed_literal_decimals_def)
  next
    case False
    then have "std_to_string_float w = ?ip @ CHR ''.'' # ?fp"
      using assms by (simp add: std_to_string_float_def)
    then show ?thesis
      using sh v fp fpne ip False
      by (simp add: is_fixed_literal_def fixed_literal_digits_def fixed_literal_decimals_def)
  qed
qed

lemma round_half_even_nearest:
  assumes "0 < den"
  shows "2 * \<bar>int (round_half_even num den) * int den - int num\<bar> \<le> int den"
proof -
  define q where "q = num div den"
  define r where "r = num mod den"
  have n: "int num = int q * int den + int r"
    unfolding q_def r_def by (metis div_mult_mod_eq of_nat_add of_nat_mult)
  have r: "r < den" unfolding r_def using assms by simp
  have rd: "round_half_even num den =
      (if 2 * r > den \<or> (2 * r = den \<and> odd q) then q + 1 else q)"
    unfolding q_def r_def round_half_even_def ..
  show ?thesis
  proof (cases "2 * r > den \<or> (2 * r = den \<and> odd q)")
    case True
    then have up: "round_half_even num den = q + 1"
      unfolding rd by (rule if_P)
    have h: "int den \<le> 2 * int r" using True by linarith
    have e: "\<bar>int (q + 1) * int den - int num\<bar> = int den - int r"
      using n r by (simp add: algebra_simps)
    show ?thesis unfolding up e using h by simp
  next
    case False
    then have down: "round_half_even num den = q"
      unfolding rd by (rule if_not_P)
    have h: "2 * int r \<le> int den" using False by linarith
    have e: "\<bar>int q * int den - int num\<bar> = int r"
      using n by simp
    show ?thesis unfolding down e by (rule h)
  qed
qed

lemma float_micro_eq:
  "float_micro w = round_half_even (10 ^ 6 * float_abs_num w) (float_abs_den w)"
proof (cases "float_exponent w = 0")
  case True
  have "float_mantissa w * 10 ^ 6 * 2 ^ (1 - 150) = 10 ^ 6 * (float_mantissa w * 2 ^ (1 - 150))"
    by (rule mult.left_commute [THEN trans [OF mult.assoc]])
  then show ?thesis
    unfolding float_micro_def float_abs_num_def float_abs_den_def Let_def if_P [OF True]
    by (rule arg_cong [where f = "\<lambda>x. round_half_even x _"])
next
  case False
  have "(2 ^ 23 + float_mantissa w) * 10 ^ 6 * 2 ^ (float_exponent w - 150)
      = 10 ^ 6 * ((2 ^ 23 + float_mantissa w) * 2 ^ (float_exponent w - 150))"
    by (rule mult.left_commute [THEN trans [OF mult.assoc]])
  then show ?thesis
    unfolding float_micro_def float_abs_num_def float_abs_den_def Let_def if_not_P [OF False]
    by (rule arg_cong [where f = "\<lambda>x. round_half_even x _"])
qed

lemma float_abs_den_pos: "0 < float_abs_den w"
  unfolding float_abs_den_def by (cases "float_exponent w = 0") simp_all

lemma float_micro_nearest: "nearest_millionth w (float_micro w)"
  unfolding nearest_millionth_def float_micro_eq
  using round_half_even_nearest [of "float_abs_den w" "10 ^ 6 * float_abs_num w", OF float_abs_den_pos]
  by (simp only: of_nat_mult of_nat_power of_nat_numeral)

lemma variant_toString_renders: "spec_renders e (variant_toString std_to_string_float e)"
proof (cases e)
  case (SFloat sv)
  then show ?thesis
    using std_to_string_float_finite [of "currentValue sv"] float_micro_nearest [of "currentValue sv"]
    by (simp add: toString_float_def std_to_string_float_def)
qed (simp_all add: toString_bool_def toString_int_def toString_string_def
      int_to_string_literal int_to_string_val)

lemma json_loop_join:
  "json_loop f2s first ps json =
     json @ (if first \<or> ps = [] then [] else '','')
       @ join_comma (map spec_member (map (\<lambda>p. (fst p, variant_toString f2s (snd p))) ps))"
proof (induction ps arbitrary: first json)
  case Nil
  then show ?case by simp
next
  case (Cons p ps)
  let ?m = "\<lambda>p. (fst p, variant_toString f2s (snd p))"
  let ?j = "(if \<not> first then json @ '','' else json) @ spec_member (?m p)"
  have "json_loop f2s first (p # ps) json = json_loop f2s False ps ?j"
    by (simp add: spec_member_def)
  also have "\<dots> = ?j @ (if ps = [] then [] else '','')
      @ join_comma (map spec_member (map ?m ps))"
    by (subst Cons.IH) simp
  also have "\<dots> = json @ (if first \<or> p # ps = [] then [] else '','')
      @ join_comma (map spec_member (map ?m (p # ps)))"
    by (cases ps) simp_all
  finally show ?case .
qed

lemma getStateAsJson_spec:
  "getStateAsJson f2s s =
     spec_json (deviceInfo (config s))
       (map (\<lambda>p. (fst p, variant_toString f2s (snd p))) (stateValues s))"
  by (simp add: getStateAsJson_def spec_json_def json_loop_join Let_def)

lemma ex_snapshot_eq:
  "ex_snapshot =
     \<lparr>config = NexStateConfig_default\<lparr>deviceInfo := ex_info\<rparr>,
      stateValues =
        [(''name'', SText \<lparr>currentValue = ''lamp'', previousValue = ''lamp'', changed = False\<rparr>),
         (''temp'', SFloat \<lparr>currentValue = 0x41CC0000, previousValue = 0x41CC0000,
                            changed = False\<rparr>),
         (''count'', SInt \<lparr>currentValue = - 7, previousValue = - 7, changed = False\<rparr>),
         (''ledOn'', SBool \<lparr>currentValue = True, previousValue = True, changed = False\<rparr>)],
      changeCallback = None, lastOutputTime = 0, serial = [], callbackCalls = []\<rparr>"
  by (simp add: ex_snapshot_def ex_snapshot_calls_def store_run_def NexState_new_def
      NexState_set_def NexStateConfig_default_def StateValue_new_def setValue_def neq_def
      float_ne_def float_isnan_def float_iszero_def
      checkAndOutput_def hasAnyChanged_def StateValue_hasChanged_def clear_def
      markAllAsRead_def StateValue_markAsRead_def)

lemma ex_nan_eq:
  "ex_nan =
     \<lparr>config = NexStateConfig_default,
      stateValues =
        [(''t'', SFloat \<lparr>currentValue = 0x7FC00000, previousValue = 0x7FC00000,
                         changed = False\<rparr>)],
      changeCallback = None, lastOutputTime = 0, serial = [], callbackCalls = []\<rparr>"
  by (simp add: ex_nan_def store_run_def NexState_new_def NexState_set_def
      NexStateConfig_default_def StateValue_new_def checkAndOutput_def hasAnyChanged_def
      StateValue_hasChanged_def)

lemma int_to_string_minus7: "int_to_string (- 7) = ''-7''"
  by (simp add: int_to_string_def nat_to_string.simps)

lemma std_to_string_float_25_5: "std_to_string_float 0x41CC0000 = ''25.500000''"
  by (simp add: std_to_string_float_def float_sign_def float_exponent_def float_mantissa_def
      float_isfinite_def float_micro_def round_half_even_def pad_zeros_def
      nat_to_string.simps Let_def)

lemma std_to_string_float_nan: "std_to_string_float 0x7FC00000 = ''nan''"
  by (simp add: std_to_string_float_def float_sign_def float_exponent_def float_mantissa_def
      float_isfinite_def)

text \<open>
  C9. After any history of a store, its entries have distinct keys, and the keys are those
  set and not removed by a later \<^verbatim>\<open>clear\<close>, dirty or not. In whatever order \<open>vs\<close> the
  iteration of the map visits the entries, \<open>getStateAsJson\<close> is the structured snapshot of
  the specification: the header, then one member for each entry, whose text renders the
  value by its kind. A boolean is true or false, an integer a decimal literal that denotes
  it, a text stands between double quotes, and a finite float is a decimal literal with
  six decimals that denotes the millionth nearest to the float. A float that is an
  infinity or a NaN is rendered as \<^verbatim>\<open>inf\<close> or \<^verbatim>\<open>nan\<close>, which is not a numeric literal.
\<close>

theorem getStateAsJson_complete:
  assumes "s = store_run std_to_string_float cs (NexState_new cfg t0)"
      and "mset vs = mset (stateValues s)"
  shows "distinct (map fst vs) \<and>
         set (map fst vs) = live_keys cs {} \<and>
         getStateAsJson std_to_string_float (s\<lparr>stateValues := vs\<rparr>) =
           spec_json (deviceInfo cfg)
             (map (\<lambda>p. (fst p, variant_toString std_to_string_float (snd p))) vs) \<and>
         list_all (\<lambda>p. spec_renders (snd p) (variant_toString std_to_string_float (snd p))) vs"
proof -
  have k: "distinct (map fst (stateValues s))"
    "set (map fst (stateValues s)) = live_keys cs {}"
    using assms(1) keys_store_run [of "NexState_new cfg t0" std_to_string_float cs]
    by (simp_all add: NexState_new_def)
  have m: "mset (map fst vs) = mset (map fst (stateValues s))"
    using assms(2) by (metis mset_map)
  have a: "distinct (map fst vs)"
    using m k(1) by (metis mset_eq_imp_distinct_iff)
  have b: "set (map fst vs) = live_keys cs {}"
    using m k(2) by (metis mset_eq_setD)
  have "config s = cfg"
    using assms(1) run_frame [of std_to_string_float cs "NexState_new cfg t0"]
    by (simp add: NexState_new_def)
  then have c: "getStateAsJson std_to_string_float (s\<lparr>stateValues := vs\<rparr>) =
      spec_json (deviceInfo cfg)
        (map (\<lambda>p. (fst p, variant_toString std_to_string_float (snd p))) vs)"
    by (simp add: getStateAsJson_spec)
  have d: "list_all (\<lambda>p. spec_renders (snd p) (variant_toString std_to_string_float (snd p))) vs"
    by (simp add: list_all_iff variant_toString_renders)
  show ?thesis using a b c d by simp
qed

theorem getStateAsJson_complete_witness:
  \<open>getChangedKeys ex_snapshot = [] \<and>
   map fst (stateValues ex_snapshot) = [''name'', ''temp'', ''count'', ''ledOn''] \<and>
   live_keys ex_snapshot_calls {} = {''ledOn'', ''count'', ''temp'', ''name''} \<and>
   getStateAsJson std_to_string_float ex_snapshot =
     ''{"device":"Dev","id":"d1","type":"led","fw":"1.0","state":{"name":"lamp","temp":25.500000,"count":-7,"ledOn":true}}'' \<and>
   getStateAsJson std_to_string_float
       (ex_snapshot\<lparr>stateValues := rev (stateValues ex_snapshot)\<rparr>) =
     ''{"device":"Dev","id":"d1","type":"led","fw":"1.0","state":{"ledOn":true,"count":-7,"temp":25.500000,"name":"lamp"}}'' \<and>
   spec_renders (SFloat \<lparr>currentValue = 0x41CC0000, previousValue = 0x41CC0000,
                         changed = False\<rparr>) ''25.500000'' \<and>
   is_fixed_literal ''25.500000'' \<and> fixed_literal_digits ''25.500000'' = 25500000 \<and>
   nearest_millionth 0x41CC0000 25500000\<close>
proof -
  note w1 = getStateAsJson_complete [OF ex_snapshot_def refl]
  have "mset (rev (stateValues ex_snapshot)) = mset (stateValues ex_snapshot)"
    by (rule mset_rev)
  note w2 = getStateAsJson_complete [OF ex_snapshot_def this]
  note keys1 = w1 [THEN conjunct2, THEN conjunct1]
  note json1 = w1 [THEN conjunct2, THEN conjunct2, THEN conjunct1]
  note rend1 = w1 [THEN conjunct2, THEN conjunct2, THEN conjunct2]
  note json2 = w2 [THEN conjunct2, THEN conjunct2, THEN conjunct1]
  have a: "getChangedKeys ex_snapshot = []"
    by (simp add: getChangedKeys_def ex_snapshot_eq StateValue_hasChanged_def)
  have b: "map fst (stateValues ex_snapshot) = [''name'', ''temp'', ''count'', ''ledOn'']"
    by (simp add: ex_snapshot_eq)
  have c: "live_keys ex_snapshot_calls {} = {''ledOn'', ''count'', ''temp'', ''name''}"
    using keys1 b by auto
  have s: "ex_snapshot\<lparr>stateValues := stateValues ex_snapshot\<rparr> = ex_snapshot"
    by simp
  have d1: \<open>spec_json (deviceInfo (NexStateConfig_default\<lparr>deviceInfo := ex_info\<rparr>))
        (map (\<lambda>p. (fst p, variant_toString std_to_string_float (snd p)))
          (stateValues ex_snapshot)) =
     ''{"device":"Dev","id":"d1","type":"led","fw":"1.0","state":{"name":"lamp","temp":25.500000,"count":-7,"ledOn":true}}''\<close>
    by (simp add: spec_json_def ex_snapshot_eq spec_member_def toString_bool_def
        toString_int_def toString_float_def toString_string_def
        NexStateConfig_default_def ex_info_def DeviceInfo_default_def dquote_def
        int_to_string_minus7 std_to_string_float_25_5)
  have d: \<open>getStateAsJson std_to_string_float ex_snapshot =
     ''{"device":"Dev","id":"d1","type":"led","fw":"1.0","state":{"name":"lamp","temp":25.500000,"count":-7,"ledOn":true}}''\<close>
    using json1 unfolding s d1 .
  have e1: \<open>spec_json (deviceInfo (NexStateConfig_default\<lparr>deviceInfo := ex_info\<rparr>))
        (map (\<lambda>p. (fst p, variant_toString std_to_string_float (snd p)))
          (rev (stateValues ex_snapshot))) =
     ''{"device":"Dev","id":"d1","type":"led","fw":"1.0","state":{"ledOn":true,"count":-7,"temp":25.500000,"name":"lamp"}}''\<close>
    by (simp add: spec_json_def ex_snapshot_eq spec_member_def toString_bool_def
        toString_int_def toString_float_def toString_string_def
        NexStateConfig_default_def ex_info_def DeviceInfo_default_def dquote_def
        int_to_string_minus7 std_to_string_float_25_5)
  have e: \<open>getStateAsJson std_to_string_float
       (ex_snapshot\<lparr>stateValues := rev (stateValues ex_snapshot)\<rparr>) =
     ''{"device":"Dev","id":"d1","type":"led","fw":"1.0","state":{"ledOn":true,"count":-7,"temp":25.500000,"name":"lamp"}}''\<close>
    using json2 unfolding e1 .
  have f: "spec_renders (SFloat \<lparr>currentValue = 0x41CC0000, previousValue = 0x41CC0000,
                         changed = False\<rparr>) ''25.500000''"
    using rend1
    by (simp add: ex_snapshot_eq toString_float_def std_to_string_float_25_5
        del: spec_renders.simps)
  have fin: "float_isfinite 0x41CC0000"
    by (simp add: float_isfinite_def float_exponent_def)
  have g: "is_fixed_literal ''25.500000''"
    "nearest_millionth 0x41CC0000 (fixed_literal_digits ''25.500000'')"
    using f fin by simp_all
  have h: "fixed_literal_digits ''25.500000'' = 25500000"
    by (simp add: fixed_literal_digits_def unsigned_part_def is_digit_def digits_val_def
        digit_val_def)
  have i: "nearest_millionth 0x41CC0000 25500000"
    using g(2) unfolding h .
  show ?thesis
    using a b c d e f g(1) h i by (simp del: spec_renders.simps)
qed

theorem getStateAsJson_nan_counterexample:
  \<open>getStateAsJson std_to_string_float ex_nan =
     ''{"device":"","id":"","type":"","fw":"","state":{"t":nan}}'' \<and>
   is_number_literal ''nan'' = False\<close>
  by (simp add: getStateAsJson_def ex_nan_eq toString_float_def std_to_string_float_nan
      NexStateConfig_default_def DeviceInfo_default_def dquote_def Let_def
      is_number_literal_def is_int_literal_def is_fixed_literal_def unsigned_part_def
      is_digit_def)

end
